theory Spec2Isabelle
  imports Main "HOL-Library.Word" "HOL-Library.Sublist"
begin

unbundle bit_operations_syntax

section \<open>Basic types\<close>

type_synonym byte = "8 word"
type_synonym uint16 = "16 word"
type_synonym uint32 = "32 word"

text \<open>
  A Go \<open>float32\<close> is carried as its IEEE-754 bit pattern: \<open>math.Float32bits\<close> and
  \<open>math.Float32frombits\<close> are the two directions of a bit reinterpretation, so every
  pattern (NaN and subnormal ones included) is a value of its own. A \<open>float64\<close> occurs
  in the modelled code only as the widening conversion \<open>float64(x)\<close> of a \<open>float32\<close>
  (the literal \<open>0\<close> is the widening of \<open>+0\<close>), which is exact.
\<close>

datatype float32 = Float32frombits (Float32bits: uint32)

datatype float64 = float64_of float32

definition zero32 :: float32 where
  "zero32 = Float32frombits 0"

text \<open>Unary minus on a \<open>float32\<close> flips the sign bit.\<close>

definition neg32 :: "float32 \<Rightarrow> float32" where
  "neg32 x = Float32frombits (Float32bits x XOR 0x80000000)"

text \<open>\<open>float32(0.1)\<close>: the nearest single-precision value, bit pattern \<open>0x3DCCCCCD\<close>.\<close>

definition tenth32 :: float32 where
  "tenth32 = Float32frombits 0x3DCCCCCD"

text \<open>\<open>float32(-0.1)\<close>, bit pattern \<open>0xBDCCCCCD\<close>.\<close>

definition negTenth32 :: float32 where
  "negTenth32 = Float32frombits 0xBDCCCCCD"

section \<open>The standard-library string functions the code calls\<close>

text \<open>Go strings are byte sequences; \<open>string\<close> (a list of 8-bit characters) is the same.\<close>

fun Contains :: "string \<Rightarrow> string \<Rightarrow> bool" where
  "Contains [] substr = (substr = [])"
| "Contains (c # cs) substr = (prefix substr (c # cs) \<or> Contains cs substr)"

text \<open>
  \<open>strings.ToLower\<close> on the ASCII range: an upper-case letter is moved by
  \<open>'a' - 'A' = 32\<close>. Bytes outside ASCII are left alone here (Go lowers them by the
  Unicode tables; no such rune lowers to an ASCII letter of ``up'' or ``down'').
\<close>

definition lowerByte :: "char \<Rightarrow> char" where
  "lowerByte c =
     (if 65 \<le> (of_char c :: nat) \<and> (of_char c :: nat) \<le> 90
      then char_of ((of_char c :: nat) + 32) else c)"

definition ToLower :: "string \<Rightarrow> string" where
  "ToLower s = map lowerByte s"

text \<open>
  \<open>strings.Replace(s, old, new, -1)\<close> and \<open>strings.ReplaceAll(s, old, new)\<close>: every
  non-overlapping occurrence of \<open>old\<close>, scanning from the left. Every call site passes a
  non-empty literal for \<open>old\<close>; the rune-wise insertion Go performs for an empty \<open>old\<close>
  is not part of this model.
\<close>

fun ReplaceAll :: "string \<Rightarrow> string \<Rightarrow> string \<Rightarrow> string" where
  "ReplaceAll [] old new = []"
| "ReplaceAll (c # cs) old new =
     (if old \<noteq> [] \<and> prefix old (c # cs)
      then new @ ReplaceAll (drop (length old - 1) cs) old new
      else c # ReplaceAll cs old new)"

text \<open>
  \<open>strconv.ParseUint(s, 16, 8)\<close> as \<open>parseHexByte\<close> uses it, the error being dropped:
  a syntax error (empty string, a byte that is no hexadecimal digit) gives 0, a value
  above 255 gives 255 at once. \<open>hexDigit\<close> is the digit value of one byte, with Go's
  \<open>lower(c) = c | ('x' - 'X')\<close>.
\<close>

definition hexDigit :: "char \<Rightarrow> nat option" where
  "hexDigit ch =
     (let c = (of_char ch :: byte) in
      if 0x30 \<le> c \<and> c \<le> 0x39 then Some (unat (c - 0x30))
      else if 0x61 \<le> (c OR 0x20) \<and> (c OR 0x20) \<le> 0x7A
           then (let d = unat ((c OR 0x20) - 0x61 + 10) in if 16 \<le> d then None else Some d)
      else None)"

fun parseUintLoop :: "nat \<Rightarrow> string \<Rightarrow> nat" where
  "parseUintLoop n [] = n"
| "parseUintLoop n (c # cs) =
     (case hexDigit c of
        None \<Rightarrow> 0
      | Some d \<Rightarrow> (let n1 = n * 16 + d in if 255 < n1 then 255 else parseUintLoop n1 cs))"

definition parseHexByte :: "string \<Rightarrow> byte" where
  "parseHexByte s = (if s = [] then 0 else of_nat (parseUintLoop 0 s))"

section \<open>The controller and the transport\<close>

record CANMessage =
  Interface :: string
  ID :: uint32
  Data :: "byte list"
  Extended :: bool

text \<open>The controller; its HTTP client is the transport below.\<close>

record BlackArmController =
  BaseURL :: string
  CtlInterface :: string
  MotorIDs :: "int list"

text \<open>
  The bridge as a spy: \<open>sent\<close> lists every frame handed to \<open>Client.Post\<close>, in order;
  \<open>replies k\<close> is what the \<open>k\<close>-th post (counted from 0) comes back with: an error of
  the HTTP client, or a response with its status code.
\<close>

datatype postResult = PostError | Status nat

record Bridge =
  sent :: "CANMessage list"
  replies :: "nat \<Rightarrow> postResult"

text \<open>
  The error values, by the kind of failure: a joint that is not one of the controller's
  (\<open>AddressError\<close>), a list of the wrong length (\<open>EncodingError\<close>, with the two counts of
  the message), a post that failed (\<open>TransportError\<close>), a file that could not be
  marshalled or written (\<open>FileError\<close>).
\<close>

datatype error = AddressError int | EncodingError nat nat | TransportError | FileError

definition NewBlackArmController :: "string \<Rightarrow> string \<Rightarrow> string \<Rightarrow> BlackArmController" where
  "NewBlackArmController baseURL interface deviceName =
     \<lparr>BaseURL = baseURL, CtlInterface = interface,
      MotorIDs = (if Contains deviceName ''left'' then [61, 62, 63, 64, 65, 66, 67]
                  else if Contains deviceName ''right'' then [51, 52, 53, 54, 55, 56, 57]
                  else [51, 52, 53, 54, 55, 56, 57])\<rparr>"

definition sendCommand :: "CANMessage \<Rightarrow> Bridge \<Rightarrow> error option \<times> Bridge" where
  "sendCommand command br =
     (case replies br (length (sent br)) of
        PostError \<Rightarrow> (Some TransportError, br\<lparr>sent := sent br @ [command]\<rparr>)
      | Status code \<Rightarrow>
          (if code \<noteq> 200 then Some TransportError else None, br\<lparr>sent := sent br @ [command]\<rparr>))"

fun isValidJoint :: "int list \<Rightarrow> int \<Rightarrow> bool" where
  "isValidJoint [] jointID = False"
| "isValidJoint (i # ids) jointID = (if i = jointID then True else isValidJoint ids jointID)"

section \<open>Command frames\<close>

text \<open>\<open>uint32(motorID)\<close> of a Go \<open>int\<close> keeps the low 32 bits: \<open>word_of_int\<close>.\<close>

definition setModeCommand :: "string \<Rightarrow> int \<Rightarrow> CANMessage" where
  "setModeCommand iface motorID =
     \<lparr>Interface = iface, ID = 0x1200FD00 + word_of_int motorID,
      Data = [0x05, 0x70, 0x00, 0x00, 0x01, 0x00, 0x00, 0x00], Extended = True\<rparr>"

definition enableCommand :: "string \<Rightarrow> int \<Rightarrow> CANMessage" where
  "enableCommand iface motorID =
     \<lparr>Interface = iface, ID = 0x0300FD00 + word_of_int motorID,
      Data = [0x00, 0x00, 0x00, 0x00, 0x00, 0x00, 0x00, 0x00], Extended = True\<rparr>"

definition disableCommand :: "string \<Rightarrow> int \<Rightarrow> CANMessage" where
  "disableCommand iface motorID =
     \<lparr>Interface = iface, ID = 0x0400FD00 + word_of_int motorID,
      Data = [0x00, 0x00, 0x00, 0x00, 0x00, 0x00, 0x00, 0x00], Extended = True\<rparr>"

definition setZeroCommand :: "string \<Rightarrow> int \<Rightarrow> CANMessage" where
  "setZeroCommand iface motorID =
     \<lparr>Interface = iface, ID = 0x0600FD00 + word_of_int motorID,
      Data = [0x01, 0x00, 0x00, 0x00, 0x00, 0x00, 0x00, 0x00], Extended = True\<rparr>"

definition cleanErrorCommand :: "string \<Rightarrow> int \<Rightarrow> CANMessage" where
  "cleanErrorCommand iface motorID =
     \<lparr>Interface = iface, ID = 0x0400FD00 + word_of_int motorID,
      Data = [0x01, 0x00, 0x00, 0x00, 0x00, 0x00, 0x00, 0x00], Extended = True\<rparr>"

text \<open>\<open>binary.LittleEndian.PutUint32\<close> into a fresh four-byte slice.\<close>

definition PutUint32 :: "uint32 \<Rightarrow> byte list" where
  "PutUint32 v = [ucast v, ucast (drop_bit 8 v), ucast (drop_bit 16 v), ucast (drop_bit 24 v)]"

text \<open>
  The payload of a value-carrying write, as \<open>SetAngle\<close>, \<open>SetSpeed\<close> and the four gain
  setters build it: the two bytes of the register index, two zero bytes, the four bytes
  of the value.
\<close>

definition valueData :: "byte \<Rightarrow> byte \<Rightarrow> float32 \<Rightarrow> byte list" where
  "valueData lo hi x = [lo, hi, 0x00, 0x00] @ PutUint32 (Float32bits x)"

definition valueCommand :: "byte \<Rightarrow> byte \<Rightarrow> string \<Rightarrow> int \<Rightarrow> float32 \<Rightarrow> CANMessage" where
  "valueCommand lo hi iface motorID x =
     \<lparr>Interface = iface, ID = 0x1200FD00 + word_of_int motorID,
      Data = valueData lo hi x, Extended = True\<rparr>"

definition angleCommand :: "string \<Rightarrow> int \<Rightarrow> float32 \<Rightarrow> CANMessage" where
  "angleCommand = valueCommand 0x16 0x70"

definition speedCommand :: "string \<Rightarrow> int \<Rightarrow> float32 \<Rightarrow> CANMessage" where
  "speedCommand = valueCommand 0x24 0x70"

definition locKpCommand :: "string \<Rightarrow> int \<Rightarrow> float32 \<Rightarrow> CANMessage" where
  "locKpCommand = valueCommand 0x1E 0x70"

definition speedKpCommand :: "string \<Rightarrow> int \<Rightarrow> float32 \<Rightarrow> CANMessage" where
  "speedKpCommand = valueCommand 0x1F 0x70"

definition speedKiCommand :: "string \<Rightarrow> int \<Rightarrow> float32 \<Rightarrow> CANMessage" where
  "speedKiCommand = valueCommand 0x20 0x70"

definition speedFiltGainCommand :: "string \<Rightarrow> int \<Rightarrow> float32 \<Rightarrow> CANMessage" where
  "speedFiltGainCommand = valueCommand 0x21 0x70"

section \<open>The dispatcher\<close>

definition enableSingleMotor :: "BlackArmController \<Rightarrow> int \<Rightarrow> Bridge \<Rightarrow> error option \<times> Bridge" where
  "enableSingleMotor b motorID br =
     (case sendCommand (setModeCommand (CtlInterface b) motorID) br of
        (Some e, br1) \<Rightarrow> (Some e, br1)
      | (None, br1) \<Rightarrow> sendCommand (enableCommand (CtlInterface b) motorID) br1)"

text \<open>A loop that sends one frame per motor and returns at the first failure.\<close>

fun sendEach :: "(int \<Rightarrow> CANMessage) \<Rightarrow> int list \<Rightarrow> Bridge \<Rightarrow> error option \<times> Bridge" where
  "sendEach mk [] br = (None, br)"
| "sendEach mk (motorID # rest) br =
     (case sendCommand (mk motorID) br of
        (Some e, br1) \<Rightarrow> (Some e, br1)
      | (None, br1) \<Rightarrow> sendEach mk rest br1)"

definition DisableMotor :: "BlackArmController \<Rightarrow> Bridge \<Rightarrow> error option \<times> Bridge" where
  "DisableMotor b br = sendEach (disableCommand (CtlInterface b)) (MotorIDs b) br"

definition setSingleMotorZero :: "BlackArmController \<Rightarrow> int \<Rightarrow> Bridge \<Rightarrow> error option \<times> Bridge" where
  "setSingleMotorZero b motorID br = sendCommand (setZeroCommand (CtlInterface b) motorID) br"

definition SetMotorZero :: "BlackArmController \<Rightarrow> Bridge \<Rightarrow> error option \<times> Bridge" where
  "SetMotorZero b br = sendEach (setZeroCommand (CtlInterface b)) (MotorIDs b) br"

definition CleanError :: "BlackArmController \<Rightarrow> Bridge \<Rightarrow> error option \<times> Bridge" where
  "CleanError b br = sendEach (cleanErrorCommand (CtlInterface b)) (MotorIDs b) br"

definition SetAngle :: "BlackArmController \<Rightarrow> int \<Rightarrow> float32 \<Rightarrow> Bridge \<Rightarrow> error option \<times> Bridge" where
  "SetAngle b jointID angle br =
     (if \<not> isValidJoint (MotorIDs b) jointID then (Some (AddressError jointID), br)
      else sendCommand (angleCommand (CtlInterface b) jointID angle) br)"

text \<open>
  \<open>SetAngles\<close> starts one goroutine per joint, each calling \<open>SetAngle\<close> and putting its
  result on a channel with room for all of them, then reads the channel and returns at the
  first error it reads. Every goroutine runs to its end whatever the others return. The
  order in which they reach the transport is the scheduler's: \<open>sched\<close> rearranges the list
  of jobs into that order, and the results arrive on the channel in the same order.
\<close>

fun runJobs :: "BlackArmController \<Rightarrow> (int \<times> float32) list \<Rightarrow> Bridge \<Rightarrow> error option list \<times> Bridge" where
  "runJobs b [] br = ([], br)"
| "runJobs b ((motorID, angle) # jobs) br =
     (case SetAngle b motorID angle br of
        (r, br1) \<Rightarrow> (case runJobs b jobs br1 of (rs, br2) \<Rightarrow> (r # rs, br2)))"

fun firstError :: "error option list \<Rightarrow> error option" where
  "firstError [] = None"
| "firstError (None # rs) = firstError rs"
| "firstError (Some e # rs) = Some e"

definition SetAngles ::
  "((int \<times> float32) list \<Rightarrow> (int \<times> float32) list) \<Rightarrow> BlackArmController \<Rightarrow> float32 list \<Rightarrow> Bridge
     \<Rightarrow> error option \<times> Bridge" where
  "SetAngles sched b angles br =
     (if length angles \<noteq> length (MotorIDs b)
      then (Some (EncodingError (length angles) (length (MotorIDs b))), br)
      else (case runJobs b (sched (zip (MotorIDs b) angles)) br of
              (rs, br1) \<Rightarrow> (firstError rs, br1)))"

definition ReturnZero ::
  "((int \<times> float32) list \<Rightarrow> (int \<times> float32) list) \<Rightarrow> BlackArmController \<Rightarrow> Bridge
     \<Rightarrow> error option \<times> Bridge" where
  "ReturnZero sched b br = SetAngles sched b (replicate (length (MotorIDs b)) zero32) br"

section \<open>Feedback acquisition\<close>

definition typeReadSingle :: uint32 where
  "typeReadSingle = 0x11"

definition defaultHostID :: byte where
  "defaultHostID = 0xFD"

definition idxLocRef :: uint16 where
  "idxLocRef = 0x7016"

definition idxLocKp :: uint16 where
  "idxLocKp = 0x701E"

definition idxSpdKp :: uint16 where
  "idxSpdKp = 0x701F"

definition idxSpdKi :: uint16 where
  "idxSpdKi = 0x7020"

definition buildReadReqID :: "byte \<Rightarrow> byte \<Rightarrow> uint32" where
  "buildReadReqID hostID motorID =
     push_bit 24 typeReadSingle OR push_bit 8 (ucast hostID) OR ucast motorID"

definition buildReadRespID :: "byte \<Rightarrow> byte \<Rightarrow> uint32" where
  "buildReadRespID hostID motorID =
     push_bit 24 typeReadSingle OR push_bit 8 (ucast motorID) OR ucast hostID"

definition buildReadReqData :: "uint16 \<Rightarrow> byte list" where
  "buildReadReqData index =
     (replicate 8 0x00)[0 := ucast (index AND 0xFF), 1 := ucast (drop_bit 8 index AND 0xFF)]"

text \<open>
  \<open>sendReadForMotor\<close> posts one read request per index and fails only when the HTTP
  client itself fails: the status code of the response is not looked at.
\<close>

fun sendReadForMotor :: "string \<Rightarrow> int \<Rightarrow> uint16 list \<Rightarrow> Bridge \<Rightarrow> error option \<times> Bridge" where
  "sendReadForMotor iface motorID [] br = (None, br)"
| "sendReadForMotor iface motorID (idx # indices) br =
     (let cmd = \<lparr>Interface = iface, ID = buildReadReqID defaultHostID (word_of_int motorID),
                 Data = buildReadReqData idx, Extended = True\<rparr>;
          br1 = br\<lparr>sent := sent br @ [cmd]\<rparr>
      in case replies br (length (sent br)) of
           PostError \<Rightarrow> (Some TransportError, br1)
         | Status code \<Rightarrow> sendReadForMotor iface motorID indices br1)"

text \<open>
  One message of a poll is its \<open>HexData\<close>, a list of tokens. A poll is \<open>None\<close> when the
  GET fails or its body does not unmarshal, else the messages of the body.
\<close>

type_synonym message = "string list"
type_synonym poll = "message list option"

text \<open>
  The decoding both listeners apply to a message of at least eight tokens: the register
  index, the raw 32-bit pattern \<open>u\<close>, and \<open>val32 = math.Float32frombits(u)\<close>.
\<close>

definition decodeHexData :: "message \<Rightarrow> uint16 \<times> uint32 \<times> float32" where
  "decodeHexData HexData =
     (let idx = (ucast (parseHexByte (HexData ! 0)) :: uint16)
                  OR push_bit 8 (ucast (parseHexByte (HexData ! 1)) :: uint16);
          b4 = parseHexByte (HexData ! 4);
          b5 = parseHexByte (HexData ! 5);
          b6 = parseHexByte (HexData ! 6);
          b7 = parseHexByte (HexData ! 7);
          u = (ucast b4 :: uint32) OR push_bit 8 (ucast b5) OR push_bit 16 (ucast b6)
                OR push_bit 24 (ucast b7)
      in (idx, u, Float32frombits u))"

datatype ('s, 'r) flow = Continue 's | Return 'r

record streamState =
  seen :: "uint32 \<Rightarrow> bool"
  prevBits :: uint32
  prevVal :: float32
  havePrev :: bool
  repeats :: int
  captured :: bool

definition initStreamState :: streamState where
  "initStreamState =
     \<lparr>seen = (\<lambda>u. False), prevBits = 0, prevVal = zero32, havePrev = False,
      repeats = 0, captured = False\<rparr>"

text \<open>The body of \<open>if idx == idxLocRef\<close>: one observation of the target-angle register.\<close>

definition locRefStep :: "streamState \<Rightarrow> uint32 \<Rightarrow> float32 \<Rightarrow> (streamState, bool \<times> float64) flow" where
  "locRefStep state u val32 =
     (if seen state u
      then (let state1 = state\<lparr>repeats := repeats state + 1\<rparr> in
            if \<not> captured state1 \<and> havePrev state1
            then Return (True, float64_of (prevVal state1))
            else if 2 \<le> repeats state1
            then Return (True, float64_of (prevVal state1))
            else Continue state1)
      else Continue (state\<lparr>seen := (seen state)(u := True), prevBits := u,
                           prevVal := val32, havePrev := True\<rparr>))"

definition handleMessage :: "streamState \<Rightarrow> message \<Rightarrow> (streamState, bool \<times> float64) flow" where
  "handleMessage state m =
     (if length m < 8 then Continue state
      else (case decodeHexData m of
              (idx, u, val32) \<Rightarrow>
                if idx = idxLocRef then locRefStep state u val32 else Continue state))"

fun handleMessages :: "streamState \<Rightarrow> message list \<Rightarrow> (streamState, bool \<times> float64) flow" where
  "handleMessages state [] = Continue state"
| "handleMessages state (m # ms) =
     (case handleMessage state m of
        Return r \<Rightarrow> Return r
      | Continue state1 \<Rightarrow> handleMessages state1 ms)"

text \<open>
  The polling loop runs while the clock is before the deadline, and every round that does
  not return sleeps at least 60 ms: the rounds of one call are finitely many, and the list
  of polls is what they received, in order. Running out of polls is the deadline passing.
\<close>

fun listenLoop :: "streamState \<Rightarrow> poll list \<Rightarrow> bool \<times> float64" where
  "listenLoop state [] = (False, float64_of zero32)"
| "listenLoop state (None # polls) = listenLoop state polls"
| "listenLoop state (Some msgs # polls) =
     (if length msgs = 0 then listenLoop state polls
      else (case handleMessages state msgs of
              Return r \<Rightarrow> r
            | Continue state1 \<Rightarrow> listenLoop state1 polls))"

definition listenOneMotorRound :: "poll list \<Rightarrow> bool \<times> float64" where
  "listenOneMotorRound polls = listenLoop initStreamState polls"

record paramState =
  locKp :: "float64 option"
  spdKp :: "float64 option"
  spdKi :: "float64 option"
  seenIdx :: "uint16 \<Rightarrow> bool"

definition initParamState :: paramState where
  "initParamState = \<lparr>locKp = None, spdKp = None, spdKi = None, seenIdx = (\<lambda>i. False)\<rparr>"

definition handleParamMessage ::
  "paramState \<Rightarrow> message
     \<Rightarrow> (paramState, float64 option \<times> float64 option \<times> float64 option) flow" where
  "handleParamMessage st m =
     (if length m < 8 then Continue st
      else (case decodeHexData m of
              (idx, u, val32) \<Rightarrow>
                (let st1 = (if idx = idxLocKp \<and> \<not> seenIdx st idxLocKp
                            then st\<lparr>locKp := Some (float64_of val32),
                                    seenIdx := (seenIdx st)(idxLocKp := True)\<rparr>
                            else st);
                     st2 = (if idx = idxSpdKp \<and> \<not> seenIdx st1 idxSpdKp
                            then st1\<lparr>spdKp := Some (float64_of val32),
                                     seenIdx := (seenIdx st1)(idxSpdKp := True)\<rparr>
                            else st1);
                     st3 = (if idx = idxSpdKi \<and> \<not> seenIdx st2 idxSpdKi
                            then st2\<lparr>spdKi := Some (float64_of val32),
                                     seenIdx := (seenIdx st2)(idxSpdKi := True)\<rparr>
                            else st2)
                 in if locKp st3 \<noteq> None \<and> spdKp st3 \<noteq> None \<and> spdKi st3 \<noteq> None
                    then Return (locKp st3, spdKp st3, spdKi st3)
                    else Continue st3)))"

fun handleParamMessages ::
  "paramState \<Rightarrow> message list
     \<Rightarrow> (paramState, float64 option \<times> float64 option \<times> float64 option) flow" where
  "handleParamMessages st [] = Continue st"
| "handleParamMessages st (m # ms) =
     (case handleParamMessage st m of
        Return r \<Rightarrow> Return r
      | Continue st1 \<Rightarrow> handleParamMessages st1 ms)"

fun listenParamLoop ::
  "paramState \<Rightarrow> poll list \<Rightarrow> float64 option \<times> float64 option \<times> float64 option" where
  "listenParamLoop st [] = (locKp st, spdKp st, spdKi st)"
| "listenParamLoop st (None # polls) = listenParamLoop st polls"
| "listenParamLoop st (Some msgs # polls) =
     (if length msgs = 0 then listenParamLoop st polls
      else (case handleParamMessages st msgs of
              Return r \<Rightarrow> r
            | Continue st1 \<Rightarrow> listenParamLoop st1 polls))"

definition listenMotorParams :: "poll list \<Rightarrow> float64 option \<times> float64 option \<times> float64 option" where
  "listenMotorParams polls = listenParamLoop initParamState polls"

text \<open>
  \<open>QueryCurrentAngles\<close>: the read requests of every motor first (an error there ends the
  call), then the gains of the first motor, then one listening round per motor in order.
  \<open>paramPolls\<close> is what the gain listener receives, \<open>anglePolls i\<close> what the round of the
  \<open>i\<close>-th motor of the list receives within its budget.
\<close>

fun sendReadAll :: "string \<Rightarrow> int list \<Rightarrow> Bridge \<Rightarrow> error option \<times> Bridge" where
  "sendReadAll iface [] br = (None, br)"
| "sendReadAll iface (m # ms) br =
     (case sendReadForMotor iface m [idxLocRef, idxLocKp, idxSpdKp, idxSpdKi] br of
        (Some e, br1) \<Rightarrow> (Some e, br1)
      | (None, br1) \<Rightarrow> sendReadAll iface ms br1)"

fun listenAngles :: "(nat \<Rightarrow> poll list) \<Rightarrow> nat \<Rightarrow> int list \<Rightarrow> (int \<rightharpoonup> float64) \<Rightarrow> (int \<rightharpoonup> float64)" where
  "listenAngles anglePolls i [] angles = angles"
| "listenAngles anglePolls i (m # ms) angles =
     (case listenOneMotorRound (anglePolls i) of
        (ok, angle) \<Rightarrow>
          listenAngles anglePolls (Suc i) ms (if ok then angles(m \<mapsto> angle) else angles))"

definition queryParams :: "int list \<Rightarrow> poll list \<Rightarrow> (string \<rightharpoonup> float64)" where
  "queryParams motorIDs paramPolls =
     (if 0 < length motorIDs
      then (case listenMotorParams paramPolls of
              (kp, skp, ski) \<Rightarrow>
                (let p1 = (case kp of Some v \<Rightarrow> Map.empty(''loc_kp'' \<mapsto> v) | None \<Rightarrow> Map.empty);
                     p2 = (case skp of Some v \<Rightarrow> p1(''spd_kp'' \<mapsto> v) | None \<Rightarrow> p1);
                     p3 = (case ski of Some v \<Rightarrow> p2(''spd_ki'' \<mapsto> v) | None \<Rightarrow> p2)
                 in p3))
      else Map.empty)"

definition QueryCurrentAngles ::
  "string \<Rightarrow> int list \<Rightarrow> poll list \<Rightarrow> (nat \<Rightarrow> poll list) \<Rightarrow> Bridge
     \<Rightarrow> (error + (int \<rightharpoonup> float64) \<times> (string \<rightharpoonup> float64)) \<times> Bridge" where
  "QueryCurrentAngles interfaceName motorIDs paramPolls anglePolls br =
     (case sendReadAll interfaceName motorIDs br of
        (Some e, br1) \<Rightarrow> (Inl e, br1)
      | (None, br1) \<Rightarrow>
          (Inr (listenAngles anglePolls 0 motorIDs Map.empty, queryParams motorIDs paramPolls),
           br1))"

section \<open>Merging recorded sequences\<close>

record JointAngleSet =
  Name :: string
  Values :: "string \<rightharpoonup> float32"

record JointSequence =
  Name :: string
  ArmType :: string
  ArmModel :: string
  Angles :: "JointAngleSet list"

text \<open>
  The directory the merged files are written to. \<open>files\<close> maps a path to the sequences
  stored there (the JSON text is not modelled); \<open>saveOK path sequences\<close> tells whether
  marshalling these sequences and writing them to this path succeeds.
\<close>

record Disk =
  files :: "string \<rightharpoonup> JointSequence list"
  saveOK :: "string \<Rightarrow> JointSequence list \<Rightarrow> bool"

text \<open>The local \<open>fileName\<close> of \<open>saveMergedSequence\<close>; \<open>CHR 0x5C\<close> is the backslash.\<close>

definition mergedFileName :: "string \<Rightarrow> string" where
  "mergedFileName mergedName =
     ReplaceAll (ReplaceAll (ReplaceAll mergedName '' '' ''_'') ''/'' ''_'') [CHR 0x5C] ''_''"

definition saveMergedSequence :: "string \<Rightarrow> JointSequence list \<Rightarrow> Disk \<Rightarrow> error option \<times> Disk" where
  "saveMergedSequence mergedName sequences d =
     (let filePath = mergedFileName mergedName @ ''.json''
      in if saveOK d filePath sequences
         then (None, d\<lparr>files := (files d)(filePath \<mapsto> sequences)\<rparr>)
         else (Some FileError, d))"

text \<open>The response of the merge handler: its message by kind, its \<open>Data\<close> by shape.\<close>

datatype mergeMessage =
    MsgNotFound
  | MsgSaveUpFailed
  | MsgUpSavedDownFailed string
  | MsgUpAndDown string string
  | MsgSaveDownFailed
  | MsgSaveMergedFailed
  | MsgMerged string string string

datatype mergeData =
    NoData
  | Sequences "JointSequence list"
  | UpDown (up: "JointSequence list") (down: "JointSequence list") (up_file: string) (down_file: string)

record ControlResponse =
  Success :: bool
  Message :: mergeMessage
  Data :: mergeData

text \<open>The lookup loop keeps the last sequence of each name.\<close>

fun findSequences ::
  "JointSequence list \<Rightarrow> string \<Rightarrow> string \<Rightarrow> JointSequence option \<times> JointSequence option
     \<Rightarrow> JointSequence option \<times> JointSequence option" where
  "findSequences [] name1 name2 (sequence1, sequence2) = (sequence1, sequence2)"
| "findSequences (q # qs) name1 name2 (sequence1, sequence2) =
     findSequences qs name1 name2
       (if Name q = name1 then Some q else sequence1,
        if Name q = name2 then Some q else sequence2)"

definition resolveArmModel :: "string \<Rightarrow> JointSequence \<Rightarrow> string" where
  "resolveArmModel reqArmModel leftSeq =
     (let armModel1 = (if reqArmModel = [] then ArmModel leftSeq else reqArmModel)
      in if armModel1 = [] then ''old'' else armModel1)"

text \<open>The name of the synthetic first way-point, as its UTF-8 bytes.\<close>

definition initAngleName :: string where
  "initAngleName =
     [CHR 0xE5, CHR 0x88, CHR 0x9D, CHR 0xE5, CHR 0xA7, CHR 0x8B,
      CHR 0xE8, CHR 0xA7, CHR 0x92, CHR 0xE5, CHR 0xBA, CHR 0xA6]"

definition leftInitAngle :: "float32 \<Rightarrow> JointAngleSet" where
  "leftInitAngle Angle2set62 =
     \<lparr>JointAngleSet.Name = initAngleName,
      Values = [''61'' \<mapsto> zero32, ''62'' \<mapsto> Angle2set62, ''63'' \<mapsto> zero32, ''64'' \<mapsto> zero32,
                ''65'' \<mapsto> zero32, ''66'' \<mapsto> zero32, ''67'' \<mapsto> zero32]\<rparr>"

definition rightInitAngle :: "float32 \<Rightarrow> JointAngleSet" where
  "rightInitAngle Angle2set52 =
     \<lparr>JointAngleSet.Name = initAngleName,
      Values = [''51'' \<mapsto> zero32, ''52'' \<mapsto> Angle2set52, ''53'' \<mapsto> zero32, ''54'' \<mapsto> zero32,
                ''55'' \<mapsto> zero32, ''56'' \<mapsto> zero32, ''57'' \<mapsto> zero32]\<rparr>"

text \<open>
  The reversal: a fresh slice of zero values, filled from the back while the source is
  read from the front; a sequence of at most one way-point is left as it is.
\<close>

definition zeroAngleSet :: JointAngleSet where
  "zeroAngleSet = \<lparr>JointAngleSet.Name = [], Values = Map.empty\<rparr>"

fun fillReversed :: "JointAngleSet list \<Rightarrow> nat \<Rightarrow> JointAngleSet list \<Rightarrow> JointAngleSet list" where
  "fillReversed reversed i [] = reversed"
| "fillReversed reversed i (angle # rest) =
     fillReversed (reversed[length reversed - 1 - i := angle]) (Suc i) rest"

definition reverseWithoutLast :: "JointAngleSet list \<Rightarrow> JointAngleSet list" where
  "reverseWithoutLast angles =
     (if 1 < length angles
      then (let anglesWithoutLast = take (length angles - 1) angles
            in fillReversed (replicate (length anglesWithoutLast) zeroAngleSet) 0 anglesWithoutLast)
      else angles)"

definition downNameOf :: "string \<Rightarrow> string" where
  "downNameOf MergedName =
     ReplaceAll (ReplaceAll (ReplaceAll MergedName ''up'' ''down'') ''Up'' ''down'') ''UP'' ''DOWN''"

text \<open>
  The handler for a POST whose body decodes, from the lookup on: \<open>JointSequences\<close> is the
  configuration's list, the four strings are the fields of the request.
\<close>

definition mergeFound ::
  "JointSequence \<Rightarrow> JointSequence \<Rightarrow> string \<Rightarrow> string \<Rightarrow> string \<Rightarrow> string \<Rightarrow> Disk
     \<Rightarrow> ControlResponse \<times> Disk" where
  "mergeFound sequence1 sequence2 Sequence1Name Sequence2Name MergedName reqArmModel d =
     (let armModel = resolveArmModel reqArmModel sequence1;
          leftSeq = sequence1\<lparr>ArmModel := armModel\<rparr>;
          rightSeq = sequence2\<lparr>ArmModel := armModel\<rparr>;
          isUpMerge = Contains (ToLower MergedName) ''up'';
          isDownMerge = Contains (ToLower MergedName) ''down'';
          Angle2set62 = (if armModel = ''new'' then neg32 tenth32 else tenth32);
          Angle2set52 = (if armModel = ''new'' then neg32 negTenth32 else negTenth32)
      in if isUpMerge
         then (let leftUp = leftSeq\<lparr>Angles := leftInitAngle Angle2set62 # Angles leftSeq\<rparr>;
                   rightUp = rightSeq\<lparr>Angles := rightInitAngle Angle2set52 # Angles rightSeq\<rparr>;
                   mergedSequences = [leftUp, rightUp]
               in case saveMergedSequence MergedName mergedSequences d of
                    (Some e, d1) \<Rightarrow>
                      (\<lparr>Success = False, Message = MsgSaveUpFailed, Data = NoData\<rparr>, d1)
                  | (None, d1) \<Rightarrow>
                      (let downName = downNameOf MergedName;
                           leftSeqDown = leftUp\<lparr>Name := ReplaceAll (Name leftUp) ''up'' ''down'',
                                                Angles := reverseWithoutLast (Angles leftUp)\<rparr>;
                           rightSeqDown = rightUp\<lparr>Name := ReplaceAll (Name rightUp) ''up'' ''down'',
                                                  Angles := reverseWithoutLast (Angles rightUp)\<rparr>;
                           mergedSequencesDown = [leftSeqDown, rightSeqDown]
                       in case saveMergedSequence downName mergedSequencesDown d1 of
                            (Some e, d2) \<Rightarrow>
                              (\<lparr>Success = True, Message = MsgUpSavedDownFailed MergedName,
                                Data = Sequences mergedSequences\<rparr>, d2)
                          | (None, d2) \<Rightarrow>
                              (\<lparr>Success = True, Message = MsgUpAndDown MergedName downName,
                                Data = UpDown mergedSequences mergedSequencesDown
                                         (MergedName @ ''.json'') (downName @ ''.json'')\<rparr>, d2)))
         else if isDownMerge
         then (let leftDown = leftSeq\<lparr>Angles := reverseWithoutLast (Angles leftSeq)\<rparr>;
                   rightDown = rightSeq\<lparr>Angles := reverseWithoutLast (Angles rightSeq)\<rparr>;
                   mergedSequences = [leftDown, rightDown]
               in case saveMergedSequence MergedName mergedSequences d of
                    (Some e, d1) \<Rightarrow>
                      (\<lparr>Success = False, Message = MsgSaveDownFailed, Data = NoData\<rparr>, d1)
                  | (None, d1) \<Rightarrow>
                      (\<lparr>Success = True, Message = MsgMerged Sequence1Name Sequence2Name MergedName,
                        Data = Sequences mergedSequences\<rparr>, d1))
         else (let mergedSequences = [leftSeq, rightSeq]
               in case saveMergedSequence MergedName mergedSequences d of
                    (Some e, d1) \<Rightarrow>
                      (\<lparr>Success = False, Message = MsgSaveMergedFailed, Data = NoData\<rparr>, d1)
                  | (None, d1) \<Rightarrow>
                      (\<lparr>Success = True, Message = MsgMerged Sequence1Name Sequence2Name MergedName,
                        Data = Sequences mergedSequences\<rparr>, d1)))"

definition mergeSequencesHandler ::
  "JointSequence list \<Rightarrow> string \<Rightarrow> string \<Rightarrow> string \<Rightarrow> string \<Rightarrow> Disk \<Rightarrow> ControlResponse \<times> Disk" where
  "mergeSequencesHandler JointSequences Sequence1Name Sequence2Name MergedName reqArmModel d =
     (case findSequences JointSequences Sequence1Name Sequence2Name (None, None) of
        (Some sequence1, Some sequence2) \<Rightarrow>
          mergeFound sequence1 sequence2 Sequence1Name Sequence2Name MergedName reqArmModel d
      | (Some sequence1, None) \<Rightarrow>
          (\<lparr>Success = False, Message = MsgNotFound, Data = NoData\<rparr>, d)
      | (None, sequence2) \<Rightarrow>
          (\<lparr>Success = False, Message = MsgNotFound, Data = NoData\<rparr>, d))"

section \<open>Auxiliary notions for the statements\<close>

text \<open>
  Modelled from the spec: the bridge is an external service and its rendering of payload
  bytes is not in the repository; the spec says they ``arrive as two-digit hex tokens''.
  \<open>hexToken\<close> is that rendering, in lower case.
\<close>

definition hexChar :: "nat \<Rightarrow> char" where
  "hexChar n = ''0123456789abcdef'' ! n"

definition hexToken :: "byte \<Rightarrow> string" where
  "hexToken b = [hexChar (unat b div 16), hexChar (unat b mod 16)]"

text \<open>
  The raw patterns of the target-angle register that a list of polls carries, in the order
  the loop meets them: messages shorter than eight tokens and other registers drop out.
\<close>

definition messageObs :: "message \<Rightarrow> uint32 list" where
  "messageObs m =
     (if length m < 8 then []
      else (case decodeHexData m of (idx, u, val32) \<Rightarrow> if idx = idxLocRef then [u] else []))"

definition pollMessages :: "poll \<Rightarrow> message list" where
  "pollMessages p = (case p of None \<Rightarrow> [] | Some msgs \<Rightarrow> msgs)"

definition observations :: "poll list \<Rightarrow> uint32 list" where
  "observations polls = concat (map messageObs (concat (map pollMessages polls)))"

text \<open>The convergence step run over a list of raw patterns, and the state reached after a
  list of patterns that are all new.\<close>

fun observeAll :: "streamState \<Rightarrow> uint32 list \<Rightarrow> (streamState, bool \<times> float64) flow" where
  "observeAll state [] = Continue state"
| "observeAll state (u # us) =
     (case locRefStep state u (Float32frombits u) of
        Return r \<Rightarrow> Return r
      | Continue state1 \<Rightarrow> observeAll state1 us)"

definition stateAfter :: "uint32 list \<Rightarrow> streamState" where
  "stateAfter ys =
     \<lparr>seen = (\<lambda>u. u \<in> set ys), prevBits = (if ys = [] then 0 else last ys),
      prevVal = (if ys = [] then zero32 else Float32frombits (last ys)),
      havePrev = (ys \<noteq> []), repeats = 0, captured = False\<rparr>"

text \<open>Whether the listening round of the \<open>i\<close>-th motor of the list settles.\<close>

definition settles :: "(nat \<Rightarrow> poll list) \<Rightarrow> nat \<Rightarrow> bool" where
  "settles anglePolls i = fst (listenOneMotorRound (anglePolls i))"

text \<open>
  The file name as the spec words it: every character that is not an ASCII letter or digit
  replaced by an underscore. It is compared with \<open>mergedFileName\<close> below.
\<close>

definition isAlnum :: "char \<Rightarrow> bool" where
  "isAlnum c =
     ((48 \<le> (of_char c :: nat) \<and> (of_char c :: nat) \<le> 57) \<or>
      (65 \<le> (of_char c :: nat) \<and> (of_char c :: nat) \<le> 90) \<or>
      (97 \<le> (of_char c :: nat) \<and> (of_char c :: nat) \<le> 122))"

definition specFileName :: "string \<Rightarrow> string" where
  "specFileName mergedName = map (\<lambda>c. if isAlnum c then c else CHR ''_'') mergedName"

section \<open>Properties of the frame codec\<close>

text \<open>
  Arithmetic of the identifier \<open>base + uint32(motorID)\<close> for a motor id of one byte: the
  sum does not wrap, its low byte is the motor id and its top byte is the top byte of the base.
\<close>

lemma uint_add_small:
  assumes "0 \<le> m" "m < 256" "uint (c::uint32) < 2^32 - 256"
  shows "uint (c + word_of_int m) = uint c + m"
proof -
  have m: "uint (word_of_int m :: uint32) = m"
    using assms by (simp add: uint_word_of_int take_bit_eq_mod)
  have "uint (c + word_of_int m) = (uint c + m) mod 2^32"
    by (simp only: uint_word_ariths m) simp
  also have "\<dots> = uint c + m"
    using assms by (intro mod_pos_pos_trivial) simp_all
  finally show ?thesis .
qed

lemma low_byte_uint: "uint (ucast (w::uint32) :: byte) = uint w mod 256"
  by (simp add: unsigned_ucast_eq take_bit_eq_mod)

lemma top_byte_uint: "uint (drop_bit 24 (w::uint32)) = uint w div 2^24"
  by (simp add: drop_bit_eq_div uint_div_distrib)

lemma mod256_add:
  assumes "0 \<le> m" "m < 256" "(c::int) mod 256 = 0"
  shows "(c + m) mod 256 = m"
proof -
  have "(c + m) mod 256 = (c mod 256 + m) mod 256" by (simp only: mod_add_left_eq)
  also have "\<dots> = m" using assms by simp
  finally show ?thesis .
qed

lemma low_byte_frame:
  assumes "0 \<le> m" "m < 256" "uint (c::uint32) < 2^32 - 256" "uint c mod 256 = 0"
  shows "uint (ucast (c + word_of_int m) :: byte) = m"
  using assms by (simp add: low_byte_uint uint_add_small mod256_add)

lemma top_byte_frame:
  assumes "0 \<le> m" "m < 256" "uint (c::uint32) < 2^32 - 256" "uint c mod 2^24 < 2^24 - 256"
  shows "uint (drop_bit 24 (c + word_of_int m)) = uint c div 2^24"
proof -
  have "(uint c + m) div 2^24 = uint c div 2^24"
  proof -
    have "uint c + m = (uint c div 2^24) * 2^24 + (uint c mod 2^24 + m)" by simp
    moreover have "0 \<le> uint c mod 2^24 + m" using assms by simp
    moreover have "uint c mod 2^24 + m < 2^24" using assms by simp
    ultimately show ?thesis
      by (metis div_mult_self3 div_pos_pos_trivial add.commute add.right_neutral zero_neq_numeral power_eq_0_iff)
  qed
  then show ?thesis using assms by (simp add: top_byte_uint uint_add_small)
qed

lemma low_byte_req: "(ucast (buildReadReqID h m) :: byte) = m"
  unfolding buildReadReqID_def typeReadSingle_def
  by (rule bit_word_eqI) (auto simp del: push_bit_numeral simp add: bit_simps)

lemma low_byte_resp: "(ucast (buildReadRespID h m) :: byte) = h"
  unfolding buildReadRespID_def typeReadSingle_def
  by (rule bit_word_eqI) (auto simp del: push_bit_numeral simp add: bit_simps)

lemma read_ids_eq_iff: "buildReadReqID h m = buildReadRespID h m \<longleftrightarrow> h = m"
proof
  assume "buildReadReqID h m = buildReadRespID h m"
  then have "(ucast (buildReadReqID h m) :: byte) = ucast (buildReadRespID h m)" by simp
  then show "h = m" by (simp add: low_byte_req low_byte_resp)
next
  assume "h = m"
  then show "buildReadReqID h m = buildReadRespID h m"
    by (simp add: buildReadReqID_def buildReadRespID_def)
qed

text \<open>
  Claim C10. For 8-bit host and motor ids \<open>h \<noteq> m\<close> the read-request identifier and the
  read-response identifier differ (lemma \<open>read_ids_eq_iff\<close>: they are equal exactly when
  \<open>h = m\<close>). For every write frame (the six value-carrying writes, set-mode, enable,
  disable, set-zero, clear-fault) of a motor id in \<open>0..255\<close>, the low byte of the 32-bit
  identifier is the motor id.
\<close>

theorem C10_identifier_asymmetry:
  "(h \<noteq> m \<longrightarrow> buildReadReqID h m \<noteq> buildReadRespID h m) \<and>
   (0 \<le> motorID \<and> motorID < 256 \<longrightarrow>
      uint (ucast (ID (valueCommand lo hi iface motorID x)) :: byte) = motorID \<and>
      uint (ucast (ID (angleCommand iface motorID x)) :: byte) = motorID \<and>
      uint (ucast (ID (speedCommand iface motorID x)) :: byte) = motorID \<and>
      uint (ucast (ID (locKpCommand iface motorID x)) :: byte) = motorID \<and>
      uint (ucast (ID (speedKpCommand iface motorID x)) :: byte) = motorID \<and>
      uint (ucast (ID (speedKiCommand iface motorID x)) :: byte) = motorID \<and>
      uint (ucast (ID (speedFiltGainCommand iface motorID x)) :: byte) = motorID \<and>
      uint (ucast (ID (setModeCommand iface motorID)) :: byte) = motorID \<and>
      uint (ucast (ID (enableCommand iface motorID)) :: byte) = motorID \<and>
      uint (ucast (ID (disableCommand iface motorID)) :: byte) = motorID \<and>
      uint (ucast (ID (setZeroCommand iface motorID)) :: byte) = motorID \<and>
      uint (ucast (ID (cleanErrorCommand iface motorID)) :: byte) = motorID)"
  by (simp add: read_ids_eq_iff low_byte_frame valueCommand_def angleCommand_def speedCommand_def
      locKpCommand_def speedKpCommand_def speedKiCommand_def speedFiltGainCommand_def
      setModeCommand_def enableCommand_def disableCommand_def setZeroCommand_def
      cleanErrorCommand_def)

text \<open>Host \<open>0xFD\<close> and motor 61 of the left arm.\<close>

theorem C10_identifier_asymmetry_witness:
  "(0xFD::byte) \<noteq> 61 \<and> buildReadReqID 0xFD 61 \<noteq> buildReadRespID 0xFD 61 \<and>
   (0::int) \<le> 61 \<and> (61::int) < 256 \<and>
   uint (ucast (ID (angleCommand ''can1'' 61 tenth32)) :: byte) = 61"
  using C10_identifier_asymmetry [of "0xFD" 61 61 "0x16" "0x70" "''can1''" tenth32]
  by simp

text \<open>
  Claim C5 says that the frames carrying no value (enable, disable, set-zero, clear-fault)
  have eight zero data bytes and differ only in the command byte. The set-zero and the
  clear-fault frame of motor 61 have data byte 0 equal to 1, and the clear-fault frame has
  the command byte of the disable frame.
\<close>

theorem C5_valueless_frames_counterexample:
  "CANMessage.Data (setZeroCommand ''can1'' 61) \<noteq> [0, 0, 0, 0, 0, 0, 0, 0] \<and>
   CANMessage.Data (cleanErrorCommand ''can1'' 61) \<noteq> [0, 0, 0, 0, 0, 0, 0, 0] \<and>
   drop_bit 24 (ID (cleanErrorCommand ''can1'' 61)) = drop_bit 24 (ID (disableCommand ''can1'' 61))"
  by (simp add: setZeroCommand_def cleanErrorCommand_def disableCommand_def)

text \<open>
  Claim C5, amended. The drive-enable and the disable frame carry eight zero data bytes;
  the set-zero and the clear-fault frame carry data byte 0 equal to \<open>0x01\<close> and seven zero
  bytes. The clear-fault frame has the identifier of the disable frame, from which only its
  data byte 0 tells it apart. For a motor id in \<open>0..255\<close> the command bytes are \<open>0x03\<close>
  (enable), \<open>0x04\<close> (disable), \<open>0x06\<close> (set-zero) and \<open>0x04\<close> (clear-fault).
\<close>

theorem C5_valueless_frames:
  "CANMessage.Data (enableCommand iface motorID) = [0, 0, 0, 0, 0, 0, 0, 0] \<and>
   CANMessage.Data (disableCommand iface motorID) = [0, 0, 0, 0, 0, 0, 0, 0] \<and>
   CANMessage.Data (setZeroCommand iface motorID) = [1, 0, 0, 0, 0, 0, 0, 0] \<and>
   CANMessage.Data (cleanErrorCommand iface motorID) = [1, 0, 0, 0, 0, 0, 0, 0] \<and>
   ID (cleanErrorCommand iface motorID) = ID (disableCommand iface motorID) \<and>
   (0 \<le> motorID \<and> motorID < 256 \<longrightarrow>
      uint (drop_bit 24 (ID (enableCommand iface motorID))) = 0x03 \<and>
      uint (drop_bit 24 (ID (disableCommand iface motorID))) = 0x04 \<and>
      uint (drop_bit 24 (ID (setZeroCommand iface motorID))) = 0x06 \<and>
      uint (drop_bit 24 (ID (cleanErrorCommand iface motorID))) = 0x04)"
  by (simp add: top_byte_frame enableCommand_def disableCommand_def setZeroCommand_def
      cleanErrorCommand_def)

text \<open>Motor 61 on \<open>can1\<close>.\<close>

theorem C5_valueless_frames_witness:
  "(0::int) \<le> 61 \<and> (61::int) < 256 \<and>
   CANMessage.Data (setZeroCommand ''can1'' 61) = [1, 0, 0, 0, 0, 0, 0, 0] \<and>
   uint (drop_bit 24 (ID (setZeroCommand ''can1'' 61))) = 0x06 \<and>
   uint (drop_bit 24 (ID (cleanErrorCommand ''can1'' 61))) = 0x04"
  using C5_valueless_frames [of "''can1''" 61] by simp

lemma le32_roundtrip:
  "(ucast (ucast v :: byte) OR push_bit 8 (ucast (ucast (drop_bit 8 v) :: byte)) OR
    push_bit 16 (ucast (ucast (drop_bit 16 v) :: byte)) OR
    push_bit 24 (ucast (ucast (drop_bit 24 v) :: byte))) = (v :: uint32)"
proof (rule bit_word_eqI)
  fix n :: nat
  assume "n < LENGTH(32)"
  then show "bit (ucast (ucast v :: byte) OR push_bit 8 (ucast (ucast (drop_bit 8 v) :: byte)) OR
        push_bit 16 (ucast (ucast (drop_bit 16 v) :: byte)) OR
        push_bit 24 (ucast (ucast (drop_bit 24 v) :: byte)) :: uint32) n = bit v n"
    by (cases "n < 8"; cases "n < 16"; cases "n < 24") (auto simp: bit_simps)
qed

lemma and_FF16: "(x :: uint16) AND 0xFF = take_bit 8 x"
  by (simp add: take_bit_eq_mask mask_eq_exp_minus_1)

lemma le16_roundtrip:
  "(ucast (ucast (idx AND 0xFF) :: byte) OR
    push_bit 8 (ucast (ucast (drop_bit 8 idx AND 0xFF) :: byte))) = (idx :: uint16)"
  unfolding and_FF16
proof (rule bit_word_eqI)
  fix n :: nat
  assume "n < LENGTH(16)"
  then show "bit (ucast (ucast (take_bit 8 idx) :: byte) OR
        push_bit 8 (ucast (ucast (take_bit 8 (drop_bit 8 idx)) :: byte)) :: uint16) n = bit idx n"
    by (cases "n < 8") (auto simp: bit_simps)
qed

lemma decodeHexData_bytes:
  assumes "map parseHexByte toks = [c0, c1, c2, c3, c4, c5, c6, c7]"
  shows "length toks = 8"
    and "decodeHexData toks =
           (ucast c0 OR push_bit 8 (ucast c1),
            ucast c4 OR push_bit 8 (ucast c5) OR push_bit 16 (ucast c6) OR push_bit 24 (ucast c7),
            Float32frombits
              (ucast c4 OR push_bit 8 (ucast c5) OR push_bit 16 (ucast c6) OR push_bit 24 (ucast c7)))"
proof -
  from assms obtain t0 t1 t2 t3 t4 t5 t6 t7 where
    toks: "toks = [t0, t1, t2, t3, t4, t5, t6, t7]"
    and p: "parseHexByte t0 = c0" "parseHexByte t1 = c1" "parseHexByte t4 = c4"
      "parseHexByte t5 = c5" "parseHexByte t6 = c6" "parseHexByte t7 = c7"
    by (auto simp: map_eq_Cons_conv)
  show "length toks = 8" by (simp add: toks)
  show "decodeHexData toks =
           (ucast c0 OR push_bit 8 (ucast c1),
            ucast c4 OR push_bit 8 (ucast c5) OR push_bit 16 (ucast c6) OR push_bit 24 (ucast c7),
            Float32frombits
              (ucast c4 OR push_bit 8 (ucast c5) OR push_bit 16 (ucast c6) OR push_bit 24 (ucast c7)))"
    by (simp add: decodeHexData_def toks p Let_def)
qed

lemma decode_valueData:
  assumes "map parseHexByte toks = valueData (ucast (idx AND 0xFF)) (ucast (drop_bit 8 idx AND 0xFF)) x"
  shows "\<not> length toks < 8 \<and> decodeHexData toks = (idx, Float32bits x, x)"
proof -
  have m: "map parseHexByte toks =
      [ucast (idx AND 0xFF), ucast (drop_bit 8 idx AND 0xFF), 0, 0,
       ucast (Float32bits x), ucast (drop_bit 8 (Float32bits x)),
       ucast (drop_bit 16 (Float32bits x)), ucast (drop_bit 24 (Float32bits x))]"
    using assms by (simp add: valueData_def PutUint32_def)
  show ?thesis
    by (simp add: decodeHexData_bytes [OF m] le16_roundtrip le32_roundtrip)
qed

lemma idxLocRef_bytes:
  "(ucast (idxLocRef AND 0xFF) :: byte) = 0x16" "(ucast (drop_bit 8 idxLocRef AND 0xFF) :: byte) = 0x70"
  by (simp_all add: idxLocRef_def)

text \<open>
  The six value-carrying writes build the payload of their register: target angle
  \<open>0x7016\<close>, speed \<open>0x7024\<close>, position gain \<open>0x701E\<close>, velocity gain \<open>0x701F\<close>,
  velocity integral gain \<open>0x7020\<close>, velocity filter gain \<open>0x7021\<close>.
\<close>

lemma write_paths_valueData:
  "CANMessage.Data (angleCommand iface m x) =
     valueData (ucast ((0x7016 :: uint16) AND 0xFF)) (ucast (drop_bit 8 (0x7016 :: uint16) AND 0xFF)) x"
  "CANMessage.Data (speedCommand iface m x) =
     valueData (ucast ((0x7024 :: uint16) AND 0xFF)) (ucast (drop_bit 8 (0x7024 :: uint16) AND 0xFF)) x"
  "CANMessage.Data (locKpCommand iface m x) =
     valueData (ucast ((0x701E :: uint16) AND 0xFF)) (ucast (drop_bit 8 (0x701E :: uint16) AND 0xFF)) x"
  "CANMessage.Data (speedKpCommand iface m x) =
     valueData (ucast ((0x701F :: uint16) AND 0xFF)) (ucast (drop_bit 8 (0x701F :: uint16) AND 0xFF)) x"
  "CANMessage.Data (speedKiCommand iface m x) =
     valueData (ucast ((0x7020 :: uint16) AND 0xFF)) (ucast (drop_bit 8 (0x7020 :: uint16) AND 0xFF)) x"
  "CANMessage.Data (speedFiltGainCommand iface m x) =
     valueData (ucast ((0x7021 :: uint16) AND 0xFF)) (ucast (drop_bit 8 (0x7021 :: uint16) AND 0xFF)) x"
  by (simp_all add: angleCommand_def speedCommand_def locKpCommand_def speedKpCommand_def
      speedKiCommand_def speedFiltGainCommand_def valueCommand_def)

text \<open>
  Claim C1. Let the tokens of a message parse to the payload that the write path builds for
  a 16-bit register index and a float (index little-endian in bytes 0 and 1, the bits of the
  float little-endian in bytes 4 to 7). Then the message passes the length check and
  decodes to the same index, the same 32-bit pattern and the same float, for every index and
  every pattern. The second part is the same for the payload of the angle write, whose
  index is the target-angle register.
\<close>

theorem C1_roundtrip:
  "(map parseHexByte toks = valueData (ucast (idx AND 0xFF)) (ucast (drop_bit 8 idx AND 0xFF)) x
      \<longrightarrow> \<not> length toks < 8 \<and> decodeHexData toks = (idx, Float32bits x, x)) \<and>
   (map parseHexByte toks = CANMessage.Data (angleCommand iface jointID x)
      \<longrightarrow> \<not> length toks < 8 \<and> decodeHexData toks = (idxLocRef, Float32bits x, x))"
proof (intro conjI impI)
  assume "map parseHexByte toks = valueData (ucast (idx AND 0xFF)) (ucast (drop_bit 8 idx AND 0xFF)) x"
  then have r: "\<not> length toks < 8 \<and> decodeHexData toks = (idx, Float32bits x, x)"
    by (rule decode_valueData)
  from r show "\<not> length toks < 8" by simp
  from r show "decodeHexData toks = (idx, Float32bits x, x)" by simp
next
  assume "map parseHexByte toks = CANMessage.Data (angleCommand iface jointID x)"
  then have "map parseHexByte toks =
      valueData (ucast (idxLocRef AND 0xFF)) (ucast (drop_bit 8 idxLocRef AND 0xFF)) x"
    by (simp add: angleCommand_def valueCommand_def idxLocRef_bytes)
  then have r: "\<not> length toks < 8 \<and> decodeHexData toks = (idxLocRef, Float32bits x, x)"
    by (rule decode_valueData)
  from r show "\<not> length toks < 8" by simp
  from r show "decodeHexData toks = (idxLocRef, Float32bits x, x)" by simp
qed

text \<open>The quiet NaN with payload 1, \<open>0x7FC00001\<close>, written to the target-angle register.\<close>

theorem C1_roundtrip_witness:
  "map parseHexByte [''16'', ''70'', ''00'', ''00'', ''01'', ''00'', ''c0'', ''7F''] =
     valueData (ucast ((0x7016 :: uint16) AND 0xFF)) (ucast (drop_bit 8 (0x7016 :: uint16) AND 0xFF))
       (Float32frombits 0x7FC00001) \<and>
   map parseHexByte [''16'', ''70'', ''00'', ''00'', ''01'', ''00'', ''c0'', ''7F''] =
     CANMessage.Data (angleCommand ''can1'' 61 (Float32frombits 0x7FC00001)) \<and>
   decodeHexData [''16'', ''70'', ''00'', ''00'', ''01'', ''00'', ''c0'', ''7F''] =
     (0x7016, Float32bits (Float32frombits 0x7FC00001), Float32frombits 0x7FC00001)"
proof -
  have h1: "map parseHexByte [''16'', ''70'', ''00'', ''00'', ''01'', ''00'', ''c0'', ''7F''] =
     valueData (ucast ((0x7016 :: uint16) AND 0xFF)) (ucast (drop_bit 8 (0x7016 :: uint16) AND 0xFF))
       (Float32frombits 0x7FC00001)"
    by code_simp
  have h2: "map parseHexByte [''16'', ''70'', ''00'', ''00'', ''01'', ''00'', ''c0'', ''7F''] =
     CANMessage.Data (angleCommand ''can1'' 61 (Float32frombits 0x7FC00001))"
    by code_simp
  from h1 C1_roundtrip [of "[''16'', ''70'', ''00'', ''00'', ''01'', ''00'', ''c0'', ''7F'']"
      "0x7016" "Float32frombits 0x7FC00001" "''can1''" 61]
  have "decodeHexData [''16'', ''70'', ''00'', ''00'', ''01'', ''00'', ''c0'', ''7F''] =
     (0x7016, Float32bits (Float32frombits 0x7FC00001), Float32frombits 0x7FC00001)"
    by blast
  with h1 h2 show ?thesis by blast
qed

text \<open>Every payload byte has tokens that parse back to it: its two hex digits.\<close>

lemma hexDigit_hexChar_all: "list_all (\<lambda>n. hexDigit (hexChar n) = Some n) [0..<16]"
  by code_simp

lemma hexDigit_hexChar: "n < 16 \<Longrightarrow> hexDigit (hexChar n) = Some n"
  using hexDigit_hexChar_all by (simp add: list_all_iff)

lemma parseHexByte_hexToken: "parseHexByte (hexToken b) = b"
proof -
  have lt: "unat b < 256" using unsigned_less [of b] by simp
  then have h: "unat b div 16 < 16" and l: "unat b mod 16 < 16" by simp_all
  have "unat b div 16 * 16 + unat b mod 16 = unat b" by simp
  with lt have "\<not> 255 < unat b div 16 * 16 + unat b mod 16" by simp
  moreover have "\<not> 255 < unat b div 16" using h by simp
  ultimately have "parseUintLoop 0 (hexToken b) = unat b"
    by (simp add: hexToken_def hexDigit_hexChar [OF h] hexDigit_hexChar [OF l] Let_def)
  then show ?thesis by (simp add: parseHexByte_def hexToken_def)
qed

section \<open>Properties of the dispatcher\<close>

text \<open>
  The joints of a controller built by \<open>NewBlackArmController\<close> fit one byte, so the frame
  \<open>SetAngle\<close> sends for a joint it accepts carries the joint in its low byte.
\<close>

lemma constructed_ids_one_byte:
  "isValidJoint (MotorIDs (NewBlackArmController baseURL iface deviceName)) jointID \<Longrightarrow>
     0 \<le> jointID \<and> jointID < 256"
  by (auto simp: NewBlackArmController_def split: if_splits)

lemma SetAngle_sends_low_byte:
  assumes "b = NewBlackArmController baseURL iface deviceName"
    and "isValidJoint (MotorIDs b) jointID"
  shows "sent (snd (SetAngle b jointID angle br)) = sent br @ [angleCommand (CtlInterface b) jointID angle] \<and>
         uint (ucast (ID (angleCommand (CtlInterface b) jointID angle)) :: byte) = jointID"
proof -
  from assms have r: "0 \<le> jointID \<and> jointID < 256"
    using constructed_ids_one_byte by simp
  have "sent (snd (SetAngle b jointID angle br)) =
      sent br @ [angleCommand (CtlInterface b) jointID angle]"
    using assms(2) by (simp add: SetAngle_def sendCommand_def split: postResult.splits)
  moreover have "uint (ucast (ID (angleCommand (CtlInterface b) jointID angle)) :: byte) = jointID"
    using r by (simp add: angleCommand_def valueCommand_def low_byte_frame)
  ultimately show ?thesis by simp
qed

lemma SetAngle_invalid_sends_nothing:
  "\<not> isValidJoint (MotorIDs b) jointID \<Longrightarrow>
     SetAngle b jointID angle br = (Some (AddressError jointID), br)"
  by (simp add: SetAngle_def)

text \<open>
  Claim C4. When the number of supplied angles differs from the number of motors,
  \<open>SetAngles\<close> returns the arity error and leaves the transport as it was: no frame is
  sent, whatever the schedule.
\<close>

theorem C4_arity_guard:
  "length angles \<noteq> length (MotorIDs b) \<Longrightarrow>
     SetAngles sched b angles br =
       (Some (EncodingError (length angles) (length (MotorIDs b))), br) \<and>
     sent (snd (SetAngles sched b angles br)) = sent br"
  by (simp add: SetAngles_def)

text \<open>Two angles for the seven motors of a left arm.\<close>

theorem C4_arity_guard_witness:
  "length [zero32, zero32] \<noteq> length (MotorIDs (NewBlackArmController ''u'' ''can1'' ''left_arm'')) \<and>
   SetAngles (\<lambda>jobs. jobs) (NewBlackArmController ''u'' ''can1'' ''left_arm'') [zero32, zero32]
       \<lparr>sent = [], replies = (\<lambda>k. Status 200)\<rparr> =
     (Some (EncodingError 2 7), \<lparr>sent = [], replies = (\<lambda>k. Status 200)\<rparr>) \<and>
   sent (snd (SetAngles (\<lambda>jobs. jobs) (NewBlackArmController ''u'' ''can1'' ''left_arm'')
       [zero32, zero32] \<lparr>sent = [], replies = (\<lambda>k. Status 200)\<rparr>)) = []"
  using C4_arity_guard [of "[zero32, zero32]" "NewBlackArmController ''u'' ''can1'' ''left_arm''"
      "\<lambda>jobs. jobs" "\<lparr>sent = [], replies = (\<lambda>k. Status 200)\<rparr>"]
  by (simp add: NewBlackArmController_def)

section \<open>Properties of the feedback engine\<close>

text \<open>Two messages of the target-angle register: the values 1.0 and 2.5.\<close>

lemma decode_one: "decodeHexData [''16'', ''70'', ''00'', ''00'', ''00'', ''00'', ''80'', ''3f''] =
   (idxLocRef, 0x3F800000, Float32frombits 0x3F800000)"
  by code_simp

lemma decode_two_half: "decodeHexData [''16'', ''70'', ''00'', ''00'', ''00'', ''00'', ''20'', ''40''] =
   (idxLocRef, 0x40200000, Float32frombits 0x40200000)"
  by code_simp

lemma decodeHexData_val: "decodeHexData m = (idx, u, val32) \<Longrightarrow> val32 = Float32frombits u"
  by (auto simp: decodeHexData_def Let_def)

lemma handleMessage_obs: "handleMessage state m = observeAll state (messageObs m)"
proof (cases "length m < 8")
  case True
  then show ?thesis by (simp add: handleMessage_def messageObs_def)
next
  case False
  obtain idx u val32 where d: "decodeHexData m = (idx, u, val32)"
    by (cases "decodeHexData m") auto
  then have v: "val32 = Float32frombits u" by (rule decodeHexData_val)
  show ?thesis
    using False d v by (simp add: handleMessage_def messageObs_def split: flow.splits)
qed

lemma observeAll_append:
  "observeAll state (xs @ ys) =
     (case observeAll state xs of Return r \<Rightarrow> Return r | Continue state1 \<Rightarrow> observeAll state1 ys)"
  by (induction xs arbitrary: state) (auto split: flow.splits)

lemma handleMessages_obs:
  "handleMessages state ms = observeAll state (concat (map messageObs ms))"
proof (induction ms arbitrary: state)
  case Nil
  show ?case by simp
next
  case (Cons m ms)
  show ?case
    by (simp add: handleMessage_obs observeAll_append Cons.IH split: flow.splits)
qed

lemma listenLoop_obs:
  "listenLoop state polls =
     (case observeAll state (observations polls) of
        Return r \<Rightarrow> r
      | Continue state1 \<Rightarrow> (False, float64_of zero32))"
proof (induction state polls rule: listenLoop.induct)
  case (1 state)
  show ?case by (simp add: observations_def)
next
  case (2 state polls)
  then show ?case by (simp add: observations_def pollMessages_def)
next
  case (3 state msgs polls)
  show ?case
  proof (cases "length msgs = 0")
    case True
    with 3 show ?thesis by (simp add: observations_def pollMessages_def)
  next
    case False
    show ?thesis
    proof (cases "handleMessages state msgs")
      case (Return r)
      with False show ?thesis
        by (simp add: observations_def pollMessages_def observeAll_append
            handleMessages_obs [symmetric])
    next
      case (Continue state1)
      with False 3(2) [OF False Continue] show ?thesis
        by (simp add: observations_def pollMessages_def observeAll_append
            handleMessages_obs [symmetric])
    qed
  qed
qed

lemma stateAfter_Nil: "stateAfter [] = initStreamState"
  by (simp add: stateAfter_def initStreamState_def)

lemma locRefStep_new:
  "u \<notin> set ys \<Longrightarrow>
     locRefStep (stateAfter ys) u (Float32frombits u) = Continue (stateAfter (ys @ [u]))"
  by (auto simp: locRefStep_def stateAfter_def fun_eq_iff)

lemma locRefStep_repeat:
  "u \<in> set ys \<Longrightarrow>
     locRefStep (stateAfter ys) u (Float32frombits u) =
       Return (True, float64_of (Float32frombits (last ys)))"
  by (auto simp: locRefStep_def stateAfter_def Let_def)

lemma observeAll_distinct:
  "distinct (xs @ ys) \<Longrightarrow> observeAll (stateAfter xs) ys = Continue (stateAfter (xs @ ys))"
proof (induction ys arbitrary: xs)
  case Nil
  show ?case by simp
next
  case (Cons u us)
  from Cons.prems have new: "u \<notin> set xs" and d: "distinct ((xs @ [u]) @ us)" by auto
  show ?case using Cons.IH [OF d] by (simp add: locRefStep_new [OF new])
qed

lemma observeAll_first_repeat:
  assumes "distinct ys" "u \<in> set ys"
  shows "observeAll initStreamState (ys @ u # zs) =
           Return (True, float64_of (Float32frombits (last ys)))"
proof -
  have "observeAll initStreamState ys = Continue (stateAfter ys)"
    using observeAll_distinct [of "[]" ys] assms(1) by (simp add: stateAfter_Nil)
  then show ?thesis
    by (simp add: observeAll_append locRefStep_repeat [OF assms(2)])
qed

lemma observeAll_reach:
  "observeAll initStreamState us = Continue state \<Longrightarrow> distinct us \<and> state = stateAfter us"
proof (induction us arbitrary: state rule: rev_induct)
  case Nil
  then show ?case by (simp add: stateAfter_Nil)
next
  case (snoc u us)
  from snoc.prems obtain s1 where s1: "observeAll initStreamState us = Continue s1"
    and st: "locRefStep s1 u (Float32frombits u) = Continue state"
    by (auto simp: observeAll_append split: flow.splits)
  from snoc.IH [OF s1] have d: "distinct us" and e: "s1 = stateAfter us" by simp_all
  have new: "u \<notin> set us"
  proof
    assume "u \<in> set us"
    from locRefStep_repeat [OF this] st e show False by simp
  qed
  with d st e show ?case by (simp add: locRefStep_new)
qed

text \<open>
  Claim C7. A stream of target-angle observations without a repeat does not settle. A stream
  whose first repeated pattern is \<open>u\<close>, after the distinct patterns \<open>ys\<close>, settles there
  and returns the value recorded last, that of \<open>last ys\<close>. In every state the loop can be
  in, a previous value is recorded exactly when some pattern has been seen, \<open>captured\<close> is
  false and \<open>repeats\<close> is 0; so on a seen pattern the first test
  \<open>!captured && havePrev\<close> holds and returns, and the test \<open>repeats >= 2\<close> is never
  reached.
\<close>

theorem C7_first_repeat_settles:
  "(distinct (observations polls0) \<longrightarrow> listenOneMotorRound polls0 = (False, float64_of zero32)) \<and>
   (observations polls = ys @ u # zs \<and> distinct ys \<and> u \<in> set ys \<longrightarrow>
      listenOneMotorRound polls = (True, float64_of (Float32frombits (last ys)))) \<and>
   (handleMessages initStreamState ms = Continue state \<longrightarrow>
      havePrev state = (\<exists>v. seen state v) \<and> \<not> captured state \<and> repeats state = 0 \<and>
      (\<forall>v. seen state v \<longrightarrow>
         locRefStep state v (Float32frombits v) = Return (True, float64_of (prevVal state)) \<and>
         \<not> captured (state\<lparr>repeats := repeats state + 1\<rparr>) \<and>
         havePrev (state\<lparr>repeats := repeats state + 1\<rparr>)))"
proof (intro conjI impI)
  assume "distinct (observations polls0)"
  then have "observeAll initStreamState (observations polls0) =
      Continue (stateAfter (observations polls0))"
    using observeAll_distinct [of "[]" "observations polls0"] by (simp add: stateAfter_Nil)
  then show "listenOneMotorRound polls0 = (False, float64_of zero32)"
    by (simp add: listenOneMotorRound_def listenLoop_obs)
next
  assume "observations polls = ys @ u # zs \<and> distinct ys \<and> u \<in> set ys"
  then show "listenOneMotorRound polls = (True, float64_of (Float32frombits (last ys)))"
    by (simp add: listenOneMotorRound_def listenLoop_obs observeAll_first_repeat)
next
  assume "handleMessages initStreamState ms = Continue state"
  then have s: "state = stateAfter (concat (map messageObs ms))"
    using observeAll_reach by (simp add: handleMessages_obs)
  show "havePrev state = (\<exists>v. seen state v)"
    unfolding s by (cases "concat (map messageObs ms)") (auto simp: stateAfter_def)
  show "\<not> captured state" by (simp add: s stateAfter_def)
  show "repeats state = 0" by (simp add: s stateAfter_def)
  show "\<forall>v. seen state v \<longrightarrow>
         locRefStep state v (Float32frombits v) = Return (True, float64_of (prevVal state)) \<and>
         \<not> captured (state\<lparr>repeats := repeats state + 1\<rparr>) \<and>
         havePrev (state\<lparr>repeats := repeats state + 1\<rparr>)"
    unfolding s by (auto simp: stateAfter_def locRefStep_def Let_def)
qed

lemma obs_witness:
  "observations
     [Some [[''16'', ''70'', ''00'', ''00'', ''00'', ''00'', ''80'', ''3f'']], None,
      Some [[''16'', ''70'', ''00'', ''00'', ''00'', ''00'', ''20'', ''40''],
            [''16'', ''70''],
            [''16'', ''70'', ''00'', ''00'', ''00'', ''00'', ''80'', ''3f''],
            [''16'', ''70'', ''00'', ''00'', ''00'', ''00'', ''20'', ''40'']]] =
   [0x3F800000, 0x40200000] @ 0x3F800000 # [0x40200000]"
  by (simp add: observations_def pollMessages_def messageObs_def decode_one decode_two_half)

lemma obs_witness_distinct:
  "observations
     [Some [[''16'', ''70'', ''00'', ''00'', ''00'', ''00'', ''80'', ''3f'']], None,
      Some [[''16'', ''70'', ''00'', ''00'', ''00'', ''00'', ''20'', ''40'']]] =
   [0x3F800000, 0x40200000]"
  by (simp add: observations_def pollMessages_def messageObs_def decode_one decode_two_half)

lemma handle_witness:
  "handleMessages initStreamState [[''16'', ''70'', ''00'', ''00'', ''00'', ''00'', ''80'', ''3f'']] =
     Continue \<lparr>seen = (\<lambda>u. False)(0x3F800000 := True), prevBits = 0x3F800000,
               prevVal = Float32frombits 0x3F800000, havePrev = True, repeats = 0,
               captured = False\<rparr>"
  by (simp add: handleMessage_def locRefStep_def initStreamState_def decode_one)

text \<open>
  The stream 1.0, 2.5 does not settle; the stream 1.0, 2.5, 1.0, 2.5 (with a short message
  in between) settles at the third observation and returns 2.5; after a single 1.0 the
  state has a previous value and a repeat of 1.0 returns at the first test.
\<close>

theorem C7_first_repeat_settles_witness:
  "distinct (observations
     [Some [[''16'', ''70'', ''00'', ''00'', ''00'', ''00'', ''80'', ''3f'']], None,
      Some [[''16'', ''70'', ''00'', ''00'', ''00'', ''00'', ''20'', ''40'']]]) \<and>
   listenOneMotorRound
     [Some [[''16'', ''70'', ''00'', ''00'', ''00'', ''00'', ''80'', ''3f'']], None,
      Some [[''16'', ''70'', ''00'', ''00'', ''00'', ''00'', ''20'', ''40'']]] =
     (False, float64_of zero32) \<and>
   (observations
     [Some [[''16'', ''70'', ''00'', ''00'', ''00'', ''00'', ''80'', ''3f'']], None,
      Some [[''16'', ''70'', ''00'', ''00'', ''00'', ''00'', ''20'', ''40''],
            [''16'', ''70''],
            [''16'', ''70'', ''00'', ''00'', ''00'', ''00'', ''80'', ''3f''],
            [''16'', ''70'', ''00'', ''00'', ''00'', ''00'', ''20'', ''40'']]] =
     [0x3F800000, 0x40200000] @ 0x3F800000 # [0x40200000] \<and>
    distinct [0x3F800000, 0x40200000 :: uint32] \<and>
    (0x3F800000 :: uint32) \<in> set [0x3F800000, 0x40200000]) \<and>
   listenOneMotorRound
     [Some [[''16'', ''70'', ''00'', ''00'', ''00'', ''00'', ''80'', ''3f'']], None,
      Some [[''16'', ''70'', ''00'', ''00'', ''00'', ''00'', ''20'', ''40''],
            [''16'', ''70''],
            [''16'', ''70'', ''00'', ''00'', ''00'', ''00'', ''80'', ''3f''],
            [''16'', ''70'', ''00'', ''00'', ''00'', ''00'', ''20'', ''40'']]] =
     (True, float64_of (Float32frombits (last [0x3F800000, 0x40200000]))) \<and>
   handleMessages initStreamState [[''16'', ''70'', ''00'', ''00'', ''00'', ''00'', ''80'', ''3f'']] =
     Continue \<lparr>seen = (\<lambda>u. False)(0x3F800000 := True), prevBits = 0x3F800000,
               prevVal = Float32frombits 0x3F800000, havePrev = True, repeats = 0,
               captured = False\<rparr> \<and>
   seen \<lparr>seen = (\<lambda>u. False)(0x3F800000 := True), prevBits = 0x3F800000,
         prevVal = Float32frombits 0x3F800000, havePrev = True, repeats = 0,
         captured = False\<rparr> 0x3F800000 \<and>
   locRefStep \<lparr>seen = (\<lambda>u. False)(0x3F800000 := True), prevBits = 0x3F800000,
         prevVal = Float32frombits 0x3F800000, havePrev = True, repeats = 0,
         captured = False\<rparr> 0x3F800000 (Float32frombits 0x3F800000) =
     Return (True, float64_of (Float32frombits 0x3F800000))"
proof -
  let ?q = "[Some [[''16'', ''70'', ''00'', ''00'', ''00'', ''00'', ''80'', ''3f'']], None,
      Some [[''16'', ''70'', ''00'', ''00'', ''00'', ''00'', ''20'', ''40'']]]"
  let ?p = "[Some [[''16'', ''70'', ''00'', ''00'', ''00'', ''00'', ''80'', ''3f'']], None,
      Some [[''16'', ''70'', ''00'', ''00'', ''00'', ''00'', ''20'', ''40''],
            [''16'', ''70''],
            [''16'', ''70'', ''00'', ''00'', ''00'', ''00'', ''80'', ''3f''],
            [''16'', ''70'', ''00'', ''00'', ''00'', ''00'', ''20'', ''40'']]]"
  let ?st = "\<lparr>seen = (\<lambda>u. False)(0x3F800000 := True), prevBits = 0x3F800000,
               prevVal = Float32frombits 0x3F800000, havePrev = True, repeats = 0,
               captured = False\<rparr>"
  have h1: "distinct (observations ?q)" by (simp add: obs_witness_distinct)
  have h2: "observations ?p = [0x3F800000, 0x40200000] @ 0x3F800000 # [0x40200000] \<and>
    distinct [0x3F800000, 0x40200000 :: uint32] \<and>
    (0x3F800000 :: uint32) \<in> set [0x3F800000, 0x40200000]"
    using obs_witness by simp
  have h3: "handleMessages initStreamState
      [[''16'', ''70'', ''00'', ''00'', ''00'', ''00'', ''80'', ''3f'']] = Continue ?st"
    by (rule handle_witness)
  have h4: "seen ?st 0x3F800000" by simp
  note t = C7_first_repeat_settles [of ?q ?p "[0x3F800000, 0x40200000]" "0x3F800000"
      "[0x40200000]" "[[''16'', ''70'', ''00'', ''00'', ''00'', ''00'', ''80'', ''3f'']]" ?st]
  from t h1 have r1: "listenOneMotorRound ?q = (False, float64_of zero32)" by blast
  from t h2 have r2: "listenOneMotorRound ?p =
      (True, float64_of (Float32frombits (last [0x3F800000, 0x40200000])))" by blast
  from t h3 h4 have r3: "locRefStep ?st 0x3F800000 (Float32frombits 0x3F800000) =
      Return (True, float64_of (prevVal ?st))" by blast
  then have r3': "locRefStep ?st 0x3F800000 (Float32frombits 0x3F800000) =
      Return (True, float64_of (Float32frombits 0x3F800000))" by simp
  from h1 r1 h2 r2 h3 h4 r3' show ?thesis by blast
qed

text \<open>
  Claim C2. Let \<open>mA\<close> and \<open>mB\<close> be messages of the target-angle register with the raw
  patterns \<open>A \<noteq> B\<close>. On the stream \<open>A, A, B, B\<close>, in one poll or one message per poll,
  the round returns the value of \<open>A\<close>. It returns it at the second \<open>A\<close>: the result is
  the same whatever messages and polls follow the second \<open>A\<close>, and after the first \<open>A\<close>
  alone the round has not settled.
\<close>

theorem C2_case_A:
  assumes "A \<noteq> B"
    and "\<not> length mA < 8 \<and> decodeHexData mA = (idxLocRef, A, Float32frombits A)"
    and "\<not> length mB < 8 \<and> decodeHexData mB = (idxLocRef, B, Float32frombits B)"
  shows "listenOneMotorRound [Some [mA, mA, mB, mB]] = (True, float64_of (Float32frombits A)) \<and>
         listenOneMotorRound [Some [mA], Some [mA], Some [mB], Some [mB]] =
           (True, float64_of (Float32frombits A)) \<and>
         listenOneMotorRound (Some (mA # mA # rest) # polls) = (True, float64_of (Float32frombits A)) \<and>
         listenOneMotorRound (Some [mA] # Some (mA # rest) # polls) =
           (True, float64_of (Float32frombits A)) \<and>
         handleMessages initStreamState [mA, mA] = Return (True, float64_of (Float32frombits A)) \<and>
         (\<exists>state. handleMessages initStreamState [mA] = Continue state) \<and>
         listenOneMotorRound [Some [mA]] = (False, float64_of zero32)"
  using assms
  by (simp add: listenOneMotorRound_def handleMessage_def locRefStep_def initStreamState_def Let_def)

text \<open>The stream 1.0, 1.0, 2.5, 2.5 settles at 1.0.\<close>

theorem C2_case_A_witness:
  "(0x3F800000 :: uint32) \<noteq> 0x40200000 \<and>
   (\<not> length [''16'', ''70'', ''00'', ''00'', ''00'', ''00'', ''80'', ''3f''] < 8 \<and>
    decodeHexData [''16'', ''70'', ''00'', ''00'', ''00'', ''00'', ''80'', ''3f''] =
      (idxLocRef, 0x3F800000, Float32frombits 0x3F800000)) \<and>
   (\<not> length [''16'', ''70'', ''00'', ''00'', ''00'', ''00'', ''20'', ''40''] < 8 \<and>
    decodeHexData [''16'', ''70'', ''00'', ''00'', ''00'', ''00'', ''20'', ''40''] =
      (idxLocRef, 0x40200000, Float32frombits 0x40200000)) \<and>
   listenOneMotorRound
     [Some [[''16'', ''70'', ''00'', ''00'', ''00'', ''00'', ''80'', ''3f''],
            [''16'', ''70'', ''00'', ''00'', ''00'', ''00'', ''80'', ''3f''],
            [''16'', ''70'', ''00'', ''00'', ''00'', ''00'', ''20'', ''40''],
            [''16'', ''70'', ''00'', ''00'', ''00'', ''00'', ''20'', ''40'']]] =
     (True, float64_of (Float32frombits 0x3F800000))"
proof -
  have ne: "(0x3F800000 :: uint32) \<noteq> 0x40200000" by simp
  have a: "\<not> length [''16'', ''70'', ''00'', ''00'', ''00'', ''00'', ''80'', ''3f''] < 8 \<and>
    decodeHexData [''16'', ''70'', ''00'', ''00'', ''00'', ''00'', ''80'', ''3f''] =
      (idxLocRef, 0x3F800000, Float32frombits 0x3F800000)"
    by (simp add: decode_one)
  have b: "\<not> length [''16'', ''70'', ''00'', ''00'', ''00'', ''00'', ''20'', ''40''] < 8 \<and>
    decodeHexData [''16'', ''70'', ''00'', ''00'', ''00'', ''00'', ''20'', ''40''] =
      (idxLocRef, 0x40200000, Float32frombits 0x40200000)"
    by (simp add: decode_two_half)
  from C2_case_A [OF ne a b, of "[]" "[]"] ne a b show ?thesis by blast
qed

lemma sendReadForMotor_ok:
  "(\<And>k. replies br k \<noteq> PostError) \<Longrightarrow>
     \<exists>br1. sendReadForMotor iface m indices br = (None, br1) \<and> replies br1 = replies br"
proof (induction indices arbitrary: br)
  case Nil
  show ?case by simp
next
  case (Cons idx indices)
  let ?br1 = "br\<lparr>sent := sent br @
      [\<lparr>Interface = iface, ID = buildReadReqID defaultHostID (word_of_int m),
        CANMessage.Data = buildReadReqData idx, Extended = True\<rparr>]\<rparr>"
  have r: "\<And>k. replies ?br1 k \<noteq> PostError" using Cons.prems by simp
  from Cons.IH [OF r] obtain br2 where
    "sendReadForMotor iface m indices ?br1 = (None, br2)" "replies br2 = replies ?br1" by blast
  moreover obtain code where "replies br (length (sent br)) = Status code"
    using Cons.prems [of "length (sent br)"] by (cases "replies br (length (sent br))") auto
  ultimately show ?case by (simp add: Let_def)
qed

lemma sendReadAll_ok:
  "(\<And>k. replies br k \<noteq> PostError) \<Longrightarrow>
     \<exists>br1. sendReadAll iface ms br = (None, br1) \<and> replies br1 = replies br"
proof (induction ms arbitrary: br)
  case Nil
  show ?case by simp
next
  case (Cons m ms)
  from sendReadForMotor_ok [of br iface m "[idxLocRef, idxLocKp, idxSpdKp, idxSpdKi]"] Cons.prems
  obtain br1 where s: "sendReadForMotor iface m [idxLocRef, idxLocKp, idxSpdKp, idxSpdKi] br = (None, br1)"
    and r: "replies br1 = replies br" by blast
  have "\<And>k. replies br1 k \<noteq> PostError" using Cons.prems r by simp
  from Cons.IH [OF this] obtain br2 where
    "sendReadAll iface ms br1 = (None, br2)" "replies br2 = replies br1" by blast
  with s r show ?case by simp
qed

lemma dom_listenAngles:
  "dom (listenAngles anglePolls i ms angles) =
     dom angles \<union> {ms ! j | j. j < length ms \<and> settles anglePolls (i + j)}"
proof (induction ms arbitrary: i angles)
  case Nil
  show ?case by simp
next
  case (Cons m ms)
  obtain ok angle where l: "listenOneMotorRound (anglePolls i) = (ok, angle)"
    by (cases "listenOneMotorRound (anglePolls i)") auto
  have split: "{(m # ms) ! j | j. j < length (m # ms) \<and> settles anglePolls (i + j)} =
      (if settles anglePolls i then {m} else {}) \<union>
      {ms ! j | j. j < length ms \<and> settles anglePolls (Suc i + j)}"
  proof (intro set_eqI iffI)
    fix x
    assume "x \<in> {(m # ms) ! j | j. j < length (m # ms) \<and> settles anglePolls (i + j)}"
    then obtain j where j: "x = (m # ms) ! j" "j < length (m # ms)" "settles anglePolls (i + j)"
      by blast
    show "x \<in> (if settles anglePolls i then {m} else {}) \<union>
      {ms ! j | j. j < length ms \<and> settles anglePolls (Suc i + j)}"
    proof (cases j)
      case 0
      with j show ?thesis by simp
    next
      case (Suc j')
      with j have "x = ms ! j'" "j' < length ms" "settles anglePolls (Suc i + j')" by simp_all
      then show ?thesis by blast
    qed
  next
    fix x
    assume "x \<in> (if settles anglePolls i then {m} else {}) \<union>
      {ms ! j | j. j < length ms \<and> settles anglePolls (Suc i + j)}"
    then consider "settles anglePolls i" "x = m"
      | j where "x = ms ! j" "j < length ms" "settles anglePolls (Suc i + j)"
      by (auto split: if_splits)
    then show "x \<in> {(m # ms) ! j | j. j < length (m # ms) \<and> settles anglePolls (i + j)}"
    proof cases
      case 1
      then have "x = (m # ms) ! 0 \<and> 0 < length (m # ms) \<and> settles anglePolls (i + 0)" by simp
      then show ?thesis by blast
    next
      case 2
      then have "x = (m # ms) ! Suc j \<and> Suc j < length (m # ms) \<and> settles anglePolls (i + Suc j)"
        by simp
      then show ?thesis by blast
    qed
  qed
  have ok: "settles anglePolls i = ok" by (simp add: settles_def l)
  show ?case
  proof (cases ok)
    case True
    have "dom (listenAngles anglePolls (Suc i) ms (angles(m \<mapsto> angle))) =
        insert m (dom angles) \<union> {ms ! j | j. j < length ms \<and> settles anglePolls (Suc i + j)}"
      by (simp only: Cons.IH dom_fun_upd option.distinct if_False)
    with True show ?thesis unfolding split by (simp add: l ok)
  next
    case False
    then show ?thesis unfolding split by (simp add: l Cons.IH ok)
  qed
qed

lemma listenAngles_other:
  "m \<notin> set ms \<Longrightarrow> listenAngles anglePolls i ms angles m = angles m"
proof (induction ms arbitrary: i angles)
  case Nil
  show ?case by simp
next
  case (Cons x xs)
  obtain ok angle where l: "listenOneMotorRound (anglePolls i) = (ok, angle)"
    by (cases "listenOneMotorRound (anglePolls i)") auto
  from Cons.prems have xm: "x \<noteq> m" and nx: "m \<notin> set xs" by auto
  show ?case using xm by (simp add: l Cons.IH [OF nx])
qed

lemma listenAngles_value:
  "distinct ms \<Longrightarrow> j < length ms \<Longrightarrow>
     listenAngles anglePolls i ms angles (ms ! j) =
       (if settles anglePolls (i + j) then Some (snd (listenOneMotorRound (anglePolls (i + j))))
        else angles (ms ! j))"
proof (induction ms arbitrary: i j angles)
  case Nil
  then show ?case by simp
next
  case (Cons m ms)
  obtain ok angle where l: "listenOneMotorRound (anglePolls i) = (ok, angle)"
    by (cases "listenOneMotorRound (anglePolls i)") auto
  have ok: "settles anglePolls i = ok" by (simp add: settles_def l)
  from Cons.prems have d: "distinct ms" and nm: "m \<notin> set ms" by simp_all
  have keep: "listenAngles anglePolls (Suc i) ms a m = a m" for a
    by (rule listenAngles_other [OF nm])
  show ?case
  proof (cases j)
    case 0
    then show ?thesis by (simp add: l ok keep)
  next
    case (Suc j')
    with Cons.prems have j': "j' < length ms" by simp
    have ne: "ms ! j' \<noteq> m" using nm j' by (auto simp: in_set_conv_nth)
    show ?thesis
      using Cons.IH [OF d j', of "Suc i"] ne by (simp add: Suc l)
  qed
qed

lemma card_settled:
  assumes "distinct ms"
  shows "card {ms ! j | j. j < length ms \<and> P j} = length (filter P [0..<length ms])"
proof -
  have "{ms ! j | j. j < length ms \<and> P j} = (\<lambda>j. ms ! j) ` set (filter P [0..<length ms])"
    by auto
  moreover have "inj_on (\<lambda>j. ms ! j) (set (filter P [0..<length ms]))"
    using assms by (auto simp: inj_on_def nth_eq_iff_index_eq)
  ultimately have "card {ms ! j | j. j < length ms \<and> P j} = card (set (filter P [0..<length ms]))"
    by (simp only: card_image)
  also have "\<dots> = length (filter P [0..<length ms])"
    by (rule distinct_card) simp
  finally show ?thesis .
qed

text \<open>
  Claim C8. When no read request fails in the HTTP client, \<open>QueryCurrentAngles\<close> returns
  without error, and for distinct motors the angle map has an entry exactly for the motors
  whose round settled: its domain is the set of settled motors, its size is their number,
  and each settled motor maps to the value its round returned.
\<close>

theorem C8_partial_feedback:
  assumes "\<forall>k. replies br k \<noteq> PostError" and "distinct motorIDs"
  shows "\<exists>angles params br1.
           QueryCurrentAngles iface motorIDs paramPolls anglePolls br = (Inr (angles, params), br1) \<and>
           dom angles = {motorIDs ! j | j. j < length motorIDs \<and> settles anglePolls j} \<and>
           card (dom angles) = length (filter (settles anglePolls) [0..<length motorIDs]) \<and>
           (\<forall>j < length motorIDs.
              angles (motorIDs ! j) =
                (if settles anglePolls j then Some (snd (listenOneMotorRound (anglePolls j)))
                 else None))"
proof -
  from assms(1) have "\<And>k. replies br k \<noteq> PostError" by simp
  from sendReadAll_ok [OF this, of iface motorIDs]
  obtain br1 where s: "sendReadAll iface motorIDs br = (None, br1)" by blast
  let ?angles = "listenAngles anglePolls 0 motorIDs Map.empty"
  have q: "QueryCurrentAngles iface motorIDs paramPolls anglePolls br =
      (Inr (?angles, queryParams motorIDs paramPolls), br1)"
    by (simp add: QueryCurrentAngles_def s)
  have d: "dom ?angles = {motorIDs ! j | j. j < length motorIDs \<and> settles anglePolls j}"
    by (simp add: dom_listenAngles)
  have c: "card (dom ?angles) = length (filter (settles anglePolls) [0..<length motorIDs])"
    unfolding d by (rule card_settled [OF assms(2)])
  have v: "\<forall>j < length motorIDs.
      ?angles (motorIDs ! j) =
        (if settles anglePolls j then Some (snd (listenOneMotorRound (anglePolls j))) else None)"
    using listenAngles_value [OF assms(2), of _ anglePolls 0 Map.empty] by simp
  from q d c v show ?thesis by blast
qed

lemma listen_one_twice:
  "listenOneMotorRound
     [Some [[''16'', ''70'', ''00'', ''00'', ''00'', ''00'', ''80'', ''3f''],
            [''16'', ''70'', ''00'', ''00'', ''00'', ''00'', ''80'', ''3f'']]] =
   (True, float64_of (Float32frombits 0x3F800000))"
  by (simp add: listenOneMotorRound_def handleMessage_def locRefStep_def initStreamState_def
      Let_def decode_one)

lemma listen_two_half_twice:
  "listenOneMotorRound
     [Some [[''16'', ''70'', ''00'', ''00'', ''00'', ''00'', ''20'', ''40'']], None,
      Some [[''16'', ''70'', ''00'', ''00'', ''00'', ''00'', ''20'', ''40'']]] =
   (True, float64_of (Float32frombits 0x40200000))"
  by (simp add: listenOneMotorRound_def handleMessage_def locRefStep_def initStreamState_def
      Let_def decode_two_half)

lemma listen_nothing: "listenOneMotorRound [] = (False, float64_of zero32)"
  by (simp add: listenOneMotorRound_def)

lemma upt_seven: "[0..<7] = [0, 1, 2, 3, 4, 5, 6]"
  by (simp add: upt_rec)

text \<open>Seven motors of which the first and the fourth settle: two entries, no error.\<close>

theorem C8_partial_feedback_witness:
  "(\<forall>k. replies \<lparr>sent = [], replies = (\<lambda>k. Status 200)\<rparr> k \<noteq> PostError) \<and>
   distinct [61, 62, 63, 64, 65, 66, 67 :: int] \<and>
   (\<exists>angles params br1.
      QueryCurrentAngles ''can1'' [61, 62, 63, 64, 65, 66, 67] []
        (\<lambda>i. if i = 0
              then [Some [[''16'', ''70'', ''00'', ''00'', ''00'', ''00'', ''80'', ''3f''],
                          [''16'', ''70'', ''00'', ''00'', ''00'', ''00'', ''80'', ''3f'']]]
              else if i = 3
              then [Some [[''16'', ''70'', ''00'', ''00'', ''00'', ''00'', ''20'', ''40'']], None,
                    Some [[''16'', ''70'', ''00'', ''00'', ''00'', ''00'', ''20'', ''40'']]]
              else [])
        \<lparr>sent = [], replies = (\<lambda>k. Status 200)\<rparr> = (Inr (angles, params), br1) \<and>
      card (dom angles) = 2 \<and>
      angles 61 = Some (float64_of (Float32frombits 0x3F800000)) \<and>
      angles 63 = None \<and>
      angles 64 = Some (float64_of (Float32frombits 0x40200000)))"
proof -
  let ?ap = "\<lambda>i::nat. if i = 0
              then [Some [[''16'', ''70'', ''00'', ''00'', ''00'', ''00'', ''80'', ''3f''],
                          [''16'', ''70'', ''00'', ''00'', ''00'', ''00'', ''80'', ''3f'']]]
              else if i = 3
              then [Some [[''16'', ''70'', ''00'', ''00'', ''00'', ''00'', ''20'', ''40'']], None,
                    Some [[''16'', ''70'', ''00'', ''00'', ''00'', ''00'', ''20'', ''40'']]]
              else []"
  let ?br = "\<lparr>sent = [], replies = (\<lambda>k. Status 200)\<rparr>"
  let ?ms = "[61, 62, 63, 64, 65, 66, 67 :: int]"
  have h1: "\<forall>k. replies ?br k \<noteq> PostError" by simp
  have h2: "distinct ?ms" by simp
  from C8_partial_feedback [OF h1 h2, of "''can1''" "[]" ?ap]
  obtain angles params br1 where
    q: "QueryCurrentAngles ''can1'' ?ms [] ?ap ?br = (Inr (angles, params), br1)"
    and c: "card (dom angles) = length (filter (settles ?ap) [0..<length ?ms])"
    and v: "\<forall>j < length ?ms. angles (?ms ! j) =
              (if settles ?ap j then Some (snd (listenOneMotorRound (?ap j))) else None)"
    by blast
  have s: "settles ?ap 0" "\<not> settles ?ap 1" "\<not> settles ?ap 2" "settles ?ap 3"
    "\<not> settles ?ap 4" "\<not> settles ?ap 5" "\<not> settles ?ap 6"
    by (simp_all add: settles_def listen_one_twice listen_two_half_twice listen_nothing)
  have c2: "card (dom angles) = 2"
    unfolding c
    by (simp add: upt_seven settles_def listen_one_twice listen_two_half_twice listen_nothing)
  have "(0::nat) < length ?ms" by simp
  from v [rule_format, OF this] have "angles (?ms ! 0) =
      (if settles ?ap 0 then Some (snd (listenOneMotorRound (?ap 0))) else None)" .
  then have a0: "angles 61 = Some (float64_of (Float32frombits 0x3F800000))"
    by (simp add: s listen_one_twice)
  have "(2::nat) < length ?ms" by simp
  from v [rule_format, OF this] have "angles (?ms ! 2) =
      (if settles ?ap 2 then Some (snd (listenOneMotorRound (?ap 2))) else None)" .
  then have a1: "angles 63 = None" by (simp add: s)
  have "(3::nat) < length ?ms" by simp
  from v [rule_format, OF this] have "angles (?ms ! 3) =
      (if settles ?ap 3 then Some (snd (listenOneMotorRound (?ap 3))) else None)" .
  then have a3: "angles 64 = Some (float64_of (Float32frombits 0x40200000))"
    by (simp add: s listen_two_half_twice)
  from h1 h2 q c2 a0 a1 a3 show ?thesis by blast
qed

section \<open>Properties of the sequence merge\<close>

lemma ReplaceAll_single:
  "ReplaceAll s [c] [d] = map (\<lambda>x. if x = c then d else x) s"
  by (induction s) auto

lemma mergedFileName_map:
  "mergedFileName mergedName =
     map (\<lambda>c. if c = CHR '' '' \<or> c = CHR ''/'' \<or> c = CHR 0x5C then CHR ''_'' else c) mergedName"
  by (simp add: mergedFileName_def ReplaceAll_single)

text \<open>
  Claim C9 says that every non-alphanumeric character of the merged name is replaced by an
  underscore in the file name. The name \<open>a-b\<close> keeps its hyphen.
\<close>

theorem C9_file_name_counterexample:
  "mergedFileName ''a-b'' = ''a-b'' \<and> \<not> isAlnum (CHR ''-'') \<and>
   mergedFileName ''a-b'' \<noteq> specFileName ''a-b''"
  by (simp add: mergedFileName_def specFileName_def isAlnum_def)

text \<open>
  Claim C9, amended. The file name is a function of the merged name: every space, slash and
  backslash is replaced by an underscore and every other character is kept; when the save
  succeeds the sequences are stored under that name followed by \<open>.json\<close>.
\<close>

theorem C9_file_name:
  "mergedFileName mergedName =
     map (\<lambda>c. if c = CHR '' '' \<or> c = CHR ''/'' \<or> c = CHR 0x5C then CHR ''_'' else c) mergedName \<and>
   (saveOK d (mergedFileName mergedName @ ''.json'') sequences \<longrightarrow>
      saveMergedSequence mergedName sequences d =
        (None, d\<lparr>files := (files d)(mergedFileName mergedName @ ''.json'' \<mapsto> sequences)\<rparr>))"
  by (simp add: mergedFileName_map saveMergedSequence_def)

text \<open>A name with a space, a slash and a hyphen.\<close>

theorem C9_file_name_witness:
  "saveOK \<lparr>files = Map.empty, saveOK = (\<lambda>p s. True)\<rparr> (mergedFileName ''up to/rest-1'' @ ''.json'') [] \<and>
   mergedFileName ''up to/rest-1'' = ''up_to_rest-1'' \<and>
   saveMergedSequence ''up to/rest-1'' [] \<lparr>files = Map.empty, saveOK = (\<lambda>p s. True)\<rparr> =
     (None, \<lparr>files = [''up_to_rest-1.json'' \<mapsto> []], saveOK = (\<lambda>p s. True)\<rparr>)"
  using C9_file_name [of "''up to/rest-1''" "\<lparr>files = Map.empty, saveOK = (\<lambda>p s. True)\<rparr>" "[]"]
  by simp

text \<open>Both names of claim C6 are names of an ascending merge.\<close>

lemma isUpMerge_names:
  "Contains (ToLower ''UP_to_rest'') ''up''" "Contains (ToLower ''Up_slow'') ''up''"
  by code_simp+

text \<open>
  Claim C6. The derived name of \<open>UP_to_rest\<close> is \<open>DOWN_to_rest\<close> and that of
  \<open>Up_slow\<close> is \<open>down_slow\<close>; when both saves succeed, the response of a merge under
  these names reports the two files under these names.
\<close>

theorem C6_name_substitution:
  "downNameOf ''UP_to_rest'' = ''DOWN_to_rest'' \<and>
   downNameOf ''Up_slow'' = ''down_slow'' \<and>
   (\<exists>ups downs.
      Data (fst (mergeFound sequence1 sequence2 name1 name2 ''UP_to_rest'' reqArmModel
              \<lparr>files = fs, saveOK = (\<lambda>p s. True)\<rparr>)) =
        UpDown ups downs ''UP_to_rest.json'' ''DOWN_to_rest.json'') \<and>
   (\<exists>ups downs.
      Data (fst (mergeFound sequence1 sequence2 name1 name2 ''Up_slow'' reqArmModel
              \<lparr>files = fs, saveOK = (\<lambda>p s. True)\<rparr>)) =
        UpDown ups downs ''Up_slow.json'' ''down_slow.json'')"
proof -
  have d1: "downNameOf ''UP_to_rest'' = ''DOWN_to_rest''" by (simp add: downNameOf_def)
  have d2: "downNameOf ''Up_slow'' = ''down_slow''" by (simp add: downNameOf_def)
  show ?thesis
    by (simp add: d1 d2 mergeFound_def Let_def saveMergedSequence_def isUpMerge_names)
qed

text \<open>The reversal loop computes the reverse of the list without its last element.\<close>

lemma fillReversed_rev:
  "length done = i \<Longrightarrow>
     fillReversed (replicate (length src) z @ rev done) i src = rev (done @ src)"
proof (induction src arbitrary: "done" i)
  case Nil
  show ?case by simp
next
  case (Cons a rest)
  have len: "length (replicate (length (a # rest)) z @ rev done) - 1 - i = length rest"
    using Cons.prems by simp
  have "replicate (Suc (length rest)) z = replicate (length rest) z @ [z]"
    by (simp add: replicate_append_same)
  then have "(replicate (Suc (length rest)) z)[length rest := a] = replicate (length rest) z @ [a]"
    by (simp add: list_update_append del: replicate_Suc)
  then have upd: "(replicate (length (a # rest)) z @ rev done)[length rest := a] =
      replicate (length rest) z @ rev (done @ [a])"
    by (simp add: list_update_append del: replicate_Suc)
  have l: "length (done @ [a]) = Suc i" using Cons.prems by simp
  show ?case
    using Cons.IH [OF l] by (simp only: fillReversed.simps len upd) simp
qed

lemma reverseWithoutLast_rev:
  "reverseWithoutLast angles = (if 1 < length angles then rev (butlast angles) else angles)"
  using fillReversed_rev [of "[]" 0 "take (length angles - 1) angles" zeroAngleSet]
  by (simp add: reverseWithoutLast_def Let_def butlast_conv_take)

text \<open>
  Claim C3. Let the left sequence have the way-points \<open>p1, p2, p3\<close>, the generation tag
  resolve to \<open>old\<close>, the merged name denote an ascending merge and the saves succeed.
  Then the handler reports success with both pairs; the ascending left sequence is
  \<open>init, p1, p2, p3\<close> and the derived descending left sequence is \<open>p2, p1, init\<close>, the
  ascending one without its last way-point, reversed; it is what the descending file holds.
  The way-point \<open>init\<close> has the joints 61 to 67 at 0, except 62 at \<open>+0.1\<close>.
\<close>

theorem C3_mirror_derivation:
  assumes "findSequences JointSequences name1 name2 (None, None) = (Some sequence1, Some sequence2)"
    and "Angles sequence1 = [p1, p2, p3]"
    and "resolveArmModel reqArmModel sequence1 = ''old''"
    and "Contains (ToLower MergedName) ''up''"
    and "\<forall>path sequences. saveOK d path sequences"
  shows "\<exists>leftUp rightUp leftDown rightDown d1.
           mergeSequencesHandler JointSequences name1 name2 MergedName reqArmModel d =
             (\<lparr>Success = True, Message = MsgUpAndDown MergedName (downNameOf MergedName),
               Data = UpDown [leftUp, rightUp] [leftDown, rightDown]
                        (MergedName @ ''.json'') (downNameOf MergedName @ ''.json'')\<rparr>, d1) \<and>
           Angles leftUp = [leftInitAngle tenth32, p1, p2, p3] \<and>
           Angles leftDown = [p2, p1, leftInitAngle tenth32] \<and>
           Angles leftDown = rev (butlast (Angles leftUp)) \<and>
           ArmModel leftUp = ''old'' \<and>
           files d1 (mergedFileName (downNameOf MergedName) @ ''.json'') =
             Some [leftDown, rightDown] \<and>
           Values (leftInitAngle tenth32) =
             [''61'' \<mapsto> zero32, ''62'' \<mapsto> tenth32, ''63'' \<mapsto> zero32, ''64'' \<mapsto> zero32,
              ''65'' \<mapsto> zero32, ''66'' \<mapsto> zero32, ''67'' \<mapsto> zero32]"
  using assms
  by (simp add: mergeSequencesHandler_def mergeFound_def Let_def saveMergedSequence_def
      reverseWithoutLast_rev leftInitAngle_def)

text \<open>A left recording of three way-points merged under the name \<open>UP_to_rest\<close>.\<close>

theorem C3_mirror_derivation_witness:
  "findSequences
     [\<lparr>Name = ''left_rec'', ArmType = ''left'', ArmModel = [],
       Angles = [\<lparr>JointAngleSet.Name = ''a'', Values = [''61'' \<mapsto> zero32]\<rparr>,
                 \<lparr>JointAngleSet.Name = ''b'', Values = [''62'' \<mapsto> tenth32]\<rparr>,
                 \<lparr>JointAngleSet.Name = ''c'', Values = Map.empty\<rparr>]\<rparr>,
      \<lparr>Name = ''right_rec'', ArmType = ''right'', ArmModel = [], Angles = []\<rparr>]
     ''left_rec'' ''right_rec'' (None, None) =
     (Some \<lparr>Name = ''left_rec'', ArmType = ''left'', ArmModel = [],
       Angles = [\<lparr>JointAngleSet.Name = ''a'', Values = [''61'' \<mapsto> zero32]\<rparr>,
                 \<lparr>JointAngleSet.Name = ''b'', Values = [''62'' \<mapsto> tenth32]\<rparr>,
                 \<lparr>JointAngleSet.Name = ''c'', Values = Map.empty\<rparr>]\<rparr>,
      Some \<lparr>Name = ''right_rec'', ArmType = ''right'', ArmModel = [], Angles = []\<rparr>) \<and>
   resolveArmModel ''old''
     \<lparr>Name = ''left_rec'', ArmType = ''left'', ArmModel = [],
       Angles = [\<lparr>JointAngleSet.Name = ''a'', Values = [''61'' \<mapsto> zero32]\<rparr>,
                 \<lparr>JointAngleSet.Name = ''b'', Values = [''62'' \<mapsto> tenth32]\<rparr>,
                 \<lparr>JointAngleSet.Name = ''c'', Values = Map.empty\<rparr>]\<rparr> = ''old'' \<and>
   Contains (ToLower ''UP_to_rest'') ''up'' \<and>
   (\<forall>path sequences. saveOK \<lparr>files = Map.empty, saveOK = (\<lambda>p s. True)\<rparr> path sequences) \<and>
   (\<exists>leftUp rightUp leftDown rightDown d1.
      mergeSequencesHandler
        [\<lparr>Name = ''left_rec'', ArmType = ''left'', ArmModel = [],
          Angles = [\<lparr>JointAngleSet.Name = ''a'', Values = [''61'' \<mapsto> zero32]\<rparr>,
                    \<lparr>JointAngleSet.Name = ''b'', Values = [''62'' \<mapsto> tenth32]\<rparr>,
                    \<lparr>JointAngleSet.Name = ''c'', Values = Map.empty\<rparr>]\<rparr>,
         \<lparr>Name = ''right_rec'', ArmType = ''right'', ArmModel = [], Angles = []\<rparr>]
        ''left_rec'' ''right_rec'' ''UP_to_rest'' ''old''
        \<lparr>files = Map.empty, saveOK = (\<lambda>p s. True)\<rparr> =
        (\<lparr>Success = True, Message = MsgUpAndDown ''UP_to_rest'' (downNameOf ''UP_to_rest''),
          Data = UpDown [leftUp, rightUp] [leftDown, rightDown]
                   (''UP_to_rest'' @ ''.json'') (downNameOf ''UP_to_rest'' @ ''.json'')\<rparr>, d1) \<and>
      Angles leftUp =
        [leftInitAngle tenth32,
         \<lparr>JointAngleSet.Name = ''a'', Values = [''61'' \<mapsto> zero32]\<rparr>,
         \<lparr>JointAngleSet.Name = ''b'', Values = [''62'' \<mapsto> tenth32]\<rparr>,
         \<lparr>JointAngleSet.Name = ''c'', Values = Map.empty\<rparr>] \<and>
      Angles leftDown =
        [\<lparr>JointAngleSet.Name = ''b'', Values = [''62'' \<mapsto> tenth32]\<rparr>,
         \<lparr>JointAngleSet.Name = ''a'', Values = [''61'' \<mapsto> zero32]\<rparr>,
         leftInitAngle tenth32])"
proof -
  let ?p1 = "\<lparr>JointAngleSet.Name = ''a'', Values = [''61'' \<mapsto> zero32]\<rparr>"
  let ?p2 = "\<lparr>JointAngleSet.Name = ''b'', Values = [''62'' \<mapsto> tenth32]\<rparr>"
  let ?p3 = "\<lparr>JointAngleSet.Name = ''c'', Values = (Map.empty :: string \<rightharpoonup> float32)\<rparr>"
  let ?sL = "\<lparr>Name = ''left_rec'', ArmType = ''left'', ArmModel = [], Angles = [?p1, ?p2, ?p3]\<rparr>"
  let ?sR = "\<lparr>Name = ''right_rec'', ArmType = ''right'', ArmModel = [], Angles = []\<rparr>"
  let ?d = "\<lparr>files = Map.empty, saveOK = (\<lambda>p s. True)\<rparr>"
  have h1: "findSequences [?sL, ?sR] ''left_rec'' ''right_rec'' (None, None) = (Some ?sL, Some ?sR)"
    by simp
  have h2: "Angles ?sL = [?p1, ?p2, ?p3]" by simp
  have h3: "resolveArmModel ''old'' ?sL = ''old''" by (simp add: resolveArmModel_def)
  have h4: "Contains (ToLower ''UP_to_rest'') ''up''" by (rule isUpMerge_names(1))
  have h5: "\<forall>path sequences. saveOK ?d path sequences" by simp
  from C3_mirror_derivation [OF h1 h2 h3 h4 h5] h1 h3 h4 h5 show ?thesis by blast
qed

end
